theory Spec2Isabelle
  imports Complex_Main
begin

section \<open>Floating-point values\<close>

text \<open>
  The analyzer computes on torch float tensors. A float is modelled as a real number or one
  of the three special values of IEEE 754. Arithmetic on finite values is exact (rounding,
  overflow and underflow are not modelled); the special values follow IEEE 754. Signed
  zeros are not modelled: a zero divisor is taken as +0, which is what a norm yields.
\<close>

datatype fl = Fin real | PInf | NInf | NaN

fun fl_isnan :: "fl \<Rightarrow> bool" where
  "fl_isnan NaN = True"
| "fl_isnan _ = False"

fun fl_neg :: "fl \<Rightarrow> fl" where
  "fl_neg (Fin x) = Fin (- x)"
| "fl_neg PInf = NInf"
| "fl_neg NInf = PInf"
| "fl_neg NaN = NaN"

fun fl_add :: "fl \<Rightarrow> fl \<Rightarrow> fl" where
  "fl_add NaN _ = NaN"
| "fl_add _ NaN = NaN"
| "fl_add (Fin x) (Fin y) = Fin (x + y)"
| "fl_add PInf NInf = NaN"
| "fl_add NInf PInf = NaN"
| "fl_add PInf _ = PInf"
| "fl_add _ PInf = PInf"
| "fl_add NInf _ = NInf"
| "fl_add _ NInf = NInf"

definition fl_sub :: "fl \<Rightarrow> fl \<Rightarrow> fl" where
  "fl_sub x y = fl_add x (fl_neg y)"

fun fl_mul :: "fl \<Rightarrow> fl \<Rightarrow> fl" where
  "fl_mul NaN _ = NaN"
| "fl_mul _ NaN = NaN"
| "fl_mul (Fin x) (Fin y) = Fin (x * y)"
| "fl_mul (Fin x) PInf = (if x = 0 then NaN else if 0 < x then PInf else NInf)"
| "fl_mul (Fin x) NInf = (if x = 0 then NaN else if 0 < x then NInf else PInf)"
| "fl_mul PInf (Fin y) = (if y = 0 then NaN else if 0 < y then PInf else NInf)"
| "fl_mul NInf (Fin y) = (if y = 0 then NaN else if 0 < y then NInf else PInf)"
| "fl_mul PInf PInf = PInf"
| "fl_mul PInf NInf = NInf"
| "fl_mul NInf PInf = NInf"
| "fl_mul NInf NInf = PInf"

fun fl_div :: "fl \<Rightarrow> fl \<Rightarrow> fl" where
  "fl_div NaN _ = NaN"
| "fl_div _ NaN = NaN"
| "fl_div (Fin x) (Fin y) =
     (if y = 0 then (if x = 0 then NaN else if 0 < x then PInf else NInf)
      else Fin (x / y))"
| "fl_div (Fin x) PInf = Fin 0"
| "fl_div (Fin x) NInf = Fin 0"
| "fl_div PInf (Fin y) = (if 0 \<le> y then PInf else NInf)"
| "fl_div NInf (Fin y) = (if 0 \<le> y then NInf else PInf)"
| "fl_div PInf PInf = NaN"
| "fl_div PInf NInf = NaN"
| "fl_div NInf PInf = NaN"
| "fl_div NInf NInf = NaN"

fun fl_sqrt :: "fl \<Rightarrow> fl" where
  "fl_sqrt (Fin x) = (if x < 0 then NaN else Fin (sqrt x))"
| "fl_sqrt PInf = PInf"
| "fl_sqrt NInf = NaN"
| "fl_sqrt NaN = NaN"

fun fl_exp :: "fl \<Rightarrow> fl" where
  "fl_exp (Fin x) = Fin (exp x)"
| "fl_exp PInf = PInf"
| "fl_exp NInf = Fin 0"
| "fl_exp NaN = NaN"

text \<open>The comparison \<open><\<close> of floats: false as soon as one side is NaN.\<close>

fun fl_lt :: "fl \<Rightarrow> fl \<Rightarrow> bool" where
  "fl_lt NaN _ = False"
| "fl_lt _ NaN = False"
| "fl_lt (Fin x) (Fin y) = (x < y)"
| "fl_lt NInf NInf = False"
| "fl_lt NInf _ = True"
| "fl_lt PInf _ = False"
| "fl_lt (Fin x) PInf = True"
| "fl_lt (Fin x) NInf = False"

section \<open>Tensors\<close>

text \<open>
  A feature tensor of shape (1, D) and a one-dimensional tensor are both lists of floats;
  a tensor of shape (N, D) is a list of rows.
\<close>

type_synonym tensor = "fl list"

definition fl_sum :: "fl list \<Rightarrow> fl" where
  "fl_sum xs = foldr fl_add xs (Fin 0)"

text \<open>\<open>a - b\<close>, \<open>a + b\<close>, \<open>a * c\<close> and \<open>a / n\<close>, elementwise.\<close>

definition t_sub :: "tensor \<Rightarrow> tensor \<Rightarrow> tensor" where
  "t_sub a b = map (\<lambda>(x, y). fl_sub x y) (zip a b)"

definition t_add :: "tensor \<Rightarrow> tensor \<Rightarrow> tensor" where
  "t_add a b = map (\<lambda>(x, y). fl_add x y) (zip a b)"

definition t_scale :: "tensor \<Rightarrow> fl \<Rightarrow> tensor" where
  "t_scale a c = map (\<lambda>x. fl_mul x c) a"

definition t_div :: "tensor \<Rightarrow> fl \<Rightarrow> tensor" where
  "t_div a n = map (\<lambda>x. fl_div x n) a"

text \<open>\<open>a.norm(dim=-1, keepdim=True)\<close>: the Euclidean norm of the row.\<close>

definition t_norm :: "tensor \<Rightarrow> fl" where
  "t_norm a = fl_sqrt (fl_sum (map (\<lambda>x. fl_mul x x) a))"

text \<open>\<open>(a @ b.T).item()\<close> for two rows: their dot product.\<close>

definition t_dot :: "tensor \<Rightarrow> tensor \<Rightarrow> fl" where
  "t_dot a b = fl_sum (map (\<lambda>(x, y). fl_mul x y) (zip a b))"

text \<open>\<open>(a @ rows.T).squeeze(0)\<close>: the dot product of the row with every row of the matrix.\<close>

definition t_matmul_T :: "tensor \<Rightarrow> tensor list \<Rightarrow> tensor" where
  "t_matmul_T a rows = map (t_dot a) rows"

text \<open>\<open>torch.softmax(x, dim=0)\<close>: \<open>exp x\<^sub>i / \<Sum>\<^sub>j exp x\<^sub>j\<close>.\<close>

definition softmax :: "tensor \<Rightarrow> tensor" where
  "softmax xs = (let es = map fl_exp xs; s = fl_sum es in map (\<lambda>e. fl_div e s) es)"

text \<open>
  The order in which \<open>topk\<close> and \<open>sort\<close> of torch rank floats: NaN ranks above every
  other value, the rest by \<open>>\<close>.
\<close>

definition topk_gt :: "fl \<Rightarrow> fl \<Rightarrow> bool" where
  "topk_gt x y = ((fl_isnan x \<and> \<not> fl_isnan y) \<or> fl_lt y x)"

definition topk_ge :: "fl \<Rightarrow> fl \<Rightarrow> bool" where
  "topk_ge x y = (\<not> topk_gt y x)"

section \<open>The analyzer\<close>

datatype error = ValueError string | RuntimeError string | TypeError string | IndexError string

definition LAND_USE_CATEGORIES :: "string list" where
  "LAND_USE_CATEGORIES =
    [''urban area with buildings and roads'',
     ''residential neighborhood with houses'',
     ''industrial zone with factories'',
     ''commercial district with shops'',
     ''agricultural land with crops'',
     ''farmland with fields'',
     ''dense forest'',
     ''sparse vegetation'',
     ''grassland and meadows'',
     ''water body like lake or river'',
     ''ocean or sea'',
     ''wetland or marsh'',
     ''desert or barren land'',
     ''snow or ice covered area'',
     ''construction site'',
     ''airport with runways'',
     ''port or harbor'',
     ''solar farm'',
     ''parking lot'',
     ''sports facility or stadium'']"

definition CHANGE_DESCRIPTIONS :: "string list" where
  "CHANGE_DESCRIPTIONS =
    [''new construction and urban development'',
     ''deforestation and vegetation loss'',
     ''reforestation and vegetation growth'',
     ''urban expansion'',
     ''agricultural expansion'',
     ''water level changes'',
     ''infrastructure development'',
     ''industrial development'',
     ''natural disaster damage'',
     ''land degradation'',
     ''coastal erosion'',
     ''flooding'',
     ''drought effects'',
     ''seasonal vegetation changes'',
     ''no significant changes'']"

text \<open>
  The pretrained network, opaque to the analyzer: \<open>net_encode_image m path i\<close> is component
  \<open>i\<close> of what \<open>model.encode_image\<close> returns for the opened and preprocessed image at
  \<open>path\<close>, \<open>net_encode_text m t i\<close> that of \<open>model.encode_text\<close> for the tokenized text
  \<open>t\<close>; both have \<open>embed_dim m\<close> finite components. Opening and decoding the file and
  loading the weights are taken to succeed.
\<close>

record clip =
  embed_dim :: nat
  net_encode_image :: "string \<Rightarrow> nat \<Rightarrow> real"
  net_encode_text :: "string \<Rightarrow> nat \<Rightarrow> real"

text \<open>
  What the analyzer takes from its libraries: \<open>load_clip env name dev\<close>
  is \<open>open_clip.create_model_and_transforms\<close> with the RemoteCLIP weights of that name
  loaded and moved to the device;
  \<open>topk env xs k\<close> is \<open>xs.topk(k)\<close> of torch on a one-dimensional tensor, giving the
  selected indices in the order returned (the values are the entries of \<open>xs\<close> at them),
  and \<open>None\<close> where torch raises; \<open>cuda_is_available\<close> is \<open>torch.cuda.is_available()\<close>.
\<close>

record env =
  load_clip :: "string \<Rightarrow> string \<Rightarrow> clip"
  topk :: "tensor \<Rightarrow> int \<Rightarrow> nat list option"
  cuda_is_available :: bool

text \<open>
  The fields \<open>model\<close>, \<open>preprocess\<close> and \<open>tokenizer\<close> of the class are set together and
  are one field here.
\<close>

record analyzer =
  model_name :: string
  device :: string
  model :: "clip option"
  initialized :: bool

definition RemoteCLIPAnalyzer_init :: "env \<Rightarrow> string \<Rightarrow> string option \<Rightarrow> analyzer" where
  "RemoteCLIPAnalyzer_init env name dev =
     \<lparr>model_name = name,
      device = (case dev of
                  Some d \<Rightarrow> if d \<noteq> [] then d
                            else if cuda_is_available env then ''cuda'' else ''cpu''
                | None \<Rightarrow> if cuda_is_available env then ''cuda'' else ''cpu''),
      model = None,
      initialized = False\<rparr>"

definition initialize :: "env \<Rightarrow> analyzer \<Rightarrow> analyzer" where
  "initialize env self =
     (if initialized self then self
      else self\<lparr>model := Some (load_clip env (model_name self) (device self)),
                 initialized := True\<rparr>)"

definition encode_image :: "analyzer \<Rightarrow> string \<Rightarrow> error + tensor" where
  "encode_image self image_path =
     (case model self of
        None \<Rightarrow> Inl (TypeError ''NoneType object is not callable'')
      | Some m \<Rightarrow>
          let image_features = map (\<lambda>i. Fin (net_encode_image m image_path i)) [0..<embed_dim m]
          in Inr (t_div image_features (t_norm image_features)))"

definition encode_texts :: "analyzer \<Rightarrow> string list \<Rightarrow> error + tensor list" where
  "encode_texts self texts =
     (case model self of
        None \<Rightarrow> Inl (TypeError ''NoneType object is not callable'')
      | Some m \<Rightarrow>
          Inr (map (\<lambda>t. let text_features = map (\<lambda>i. Fin (net_encode_text m t i)) [0..<embed_dim m]
                         in t_div text_features (t_norm text_features)) texts))"

record prediction =
  category :: string
  confidence :: fl

definition classify_land_use ::
  "env \<Rightarrow> analyzer \<Rightarrow> string \<Rightarrow> int \<Rightarrow> (error + prediction list) \<times> analyzer" where
  "classify_land_use env self0 image_path top_k =
     (let self = (if \<not> initialized self0 then initialize env self0 else self0) in
      case encode_image self image_path of
        Inl e \<Rightarrow> (Inl e, self)
      | Inr image_features \<Rightarrow>
      (case encode_texts self LAND_USE_CATEGORIES of
        Inl e \<Rightarrow> (Inl e, self)
      | Inr text_features \<Rightarrow>
      (let sims = t_matmul_T image_features text_features;
           probs = softmax (t_scale sims (Fin 100))
       in case topk env probs top_k of
            None \<Rightarrow> (Inl (RuntimeError ''selected index k out of range''), self)
          | Some top_indices \<Rightarrow>
              (Inr (map (\<lambda>idx. \<lparr>category = LAND_USE_CATEGORIES ! idx,
                                 confidence = probs ! idx\<rparr>) top_indices), self))))"

record comparison =
  similarity :: fl
  change_detected :: bool
  image1_classification :: prediction
  image2_classification :: prediction

definition compare_images ::
  "env \<Rightarrow> analyzer \<Rightarrow> string \<Rightarrow> string \<Rightarrow> (error + comparison) \<times> analyzer" where
  "compare_images env self0 image1_path image2_path =
     (let self = (if \<not> initialized self0 then initialize env self0 else self0) in
      case encode_image self image1_path of
        Inl e \<Rightarrow> (Inl e, self)
      | Inr features1 \<Rightarrow>
      (case encode_image self image2_path of
        Inl e \<Rightarrow> (Inl e, self)
      | Inr features2 \<Rightarrow>
      (let sim = t_dot features1 features2 in
       case classify_land_use env self image1_path 1 of
         (Inl e, self1) \<Rightarrow> (Inl e, self1)
       | (Inr [], self1) \<Rightarrow> (Inl (IndexError ''list index out of range''), self1)
       | (Inr (class1 # _), self1) \<Rightarrow>
       (case classify_land_use env self1 image2_path 1 of
         (Inl e, self2) \<Rightarrow> (Inl e, self2)
       | (Inr [], self2) \<Rightarrow> (Inl (IndexError ''list index out of range''), self2)
       | (Inr (class2 # _), self2) \<Rightarrow>
           (Inr \<lparr>similarity = sim,
                 change_detected = (fl_lt sim (Fin 0.85) \<or> category class1 \<noteq> category class2),
                 image1_classification = class1,
                 image2_classification = class2\<rparr>, self2)))))"

text \<open>
  An entry of \<open>detected_changes\<close>; its key \<open>confidence\<close> is the field \<open>change_confidence\<close>.
\<close>

record change =
  description :: string
  change_confidence :: fl

record change_analysis =
  overall_similarity :: fl
  change_magnitude :: fl
  detected_changes :: "change list"

definition detect_changes ::
  "env \<Rightarrow> analyzer \<Rightarrow> string \<Rightarrow> string \<Rightarrow> int \<Rightarrow> (error + change_analysis) \<times> analyzer" where
  "detect_changes env self0 image1_path image2_path top_k =
     (let self = (if \<not> initialized self0 then initialize env self0 else self0) in
      case encode_image self image1_path of
        Inl e \<Rightarrow> (Inl e, self)
      | Inr features1 \<Rightarrow>
      (case encode_image self image2_path of
        Inl e \<Rightarrow> (Inl e, self)
      | Inr features2 \<Rightarrow>
      (let diff0 = t_sub features2 features1;
           diff_features = t_div diff0 (t_norm diff0);
           change_texts = map (\<lambda>desc. ''This area shows '' @ desc) CHANGE_DESCRIPTIONS
       in case encode_texts self change_texts of
            Inl e \<Rightarrow> (Inl e, self)
          | Inr text_features \<Rightarrow>
          (let combined0 = t_add features2 (t_scale diff_features (Fin 0.5));
               combined_features = t_div combined0 (t_norm combined0);
               sims = t_matmul_T combined_features text_features;
               probs = softmax (t_scale sims (Fin 100))
           in case topk env probs top_k of
                None \<Rightarrow> (Inl (RuntimeError ''selected index k out of range''), self)
              | Some top_indices \<Rightarrow>
                  (let changes = map (\<lambda>idx. \<lparr>description = CHANGE_DESCRIPTIONS ! idx,
                                              change_confidence = probs ! idx\<rparr>) top_indices;
                       overall = t_dot features1 features2
                   in (Inr \<lparr>overall_similarity = overall,
                             change_magnitude = fl_sub (Fin 1) overall,
                             detected_changes = changes\<rparr>, self))))))"

text \<open>
  \<open>dates[i] if dates else None\<close>: no date when \<open>dates\<close> is \<open>None\<close> or empty, IndexError
  when the list is too short.
\<close>

definition date_at :: "string list option \<Rightarrow> nat \<Rightarrow> error + string option" where
  "date_at dts i =
     (case dts of
        None \<Rightarrow> Inr None
      | Some ds \<Rightarrow>
          if ds = [] then Inr None
          else if i < length ds then Inr (Some (ds ! i))
          else Inl (IndexError ''list index out of range''))"

record class_entry =
  index :: nat
  date :: "string option"
  classification :: "prediction list"

record pair_entry =
  from_index :: nat
  to_index :: nat
  from_date :: "string option"
  to_date :: "string option"
  analysis :: change_analysis

text \<open>The keys \<open>from\<close> and \<open>to\<close> of the transition are \<open>from_category\<close> and \<open>to_category\<close>.\<close>

record transition =
  from_category :: string
  to_category :: string
  same_category :: bool

record trend =
  total_change_magnitude :: fl
  primary_changes :: "change list"
  land_use_transition :: transition

record temporal =
  num_images :: nat
  dates :: "string list option"
  individual_classifications :: "class_entry list"
  pairwise_changes :: "pair_entry list"
  overall_trend :: "trend option"

text \<open>The loop over \<open>enumerate(image_paths)\<close>, from index \<open>i\<close> on.\<close>

fun classify_each ::
  "env \<Rightarrow> analyzer \<Rightarrow> string list option \<Rightarrow> nat \<Rightarrow> string list
     \<Rightarrow> (error + class_entry list) \<times> analyzer" where
  "classify_each env self dts i [] = (Inr [], self)"
| "classify_each env self dts i (path # rest) =
     (case encode_image self path of
        Inl e \<Rightarrow> (Inl e, self)
      | Inr features \<Rightarrow>
      (case classify_land_use env self path 2 of
        (Inl e, self1) \<Rightarrow> (Inl e, self1)
      | (Inr cls, self1) \<Rightarrow>
      (case date_at dts i of
        Inl e \<Rightarrow> (Inl e, self1)
      | Inr d \<Rightarrow>
      (case classify_each env self1 dts (Suc i) rest of
        (Inl e, self2) \<Rightarrow> (Inl e, self2)
      | (Inr entries, self2) \<Rightarrow>
          (Inr (\<lparr>index = i, date = d, classification = cls\<rparr> # entries), self2)))))"

text \<open>The loop over \<open>range(len(image_paths) - 1)\<close>, given the indices still to visit.\<close>

fun pairwise_each ::
  "env \<Rightarrow> analyzer \<Rightarrow> string list \<Rightarrow> string list option \<Rightarrow> nat list
     \<Rightarrow> (error + pair_entry list) \<times> analyzer" where
  "pairwise_each env self image_paths dts [] = (Inr [], self)"
| "pairwise_each env self image_paths dts (i # rest) =
     (case detect_changes env self (image_paths ! i) (image_paths ! (i + 1)) 3 of
        (Inl e, self1) \<Rightarrow> (Inl e, self1)
      | (Inr change_analysis, self1) \<Rightarrow>
      (case date_at dts i of
        Inl e \<Rightarrow> (Inl e, self1)
      | Inr fd \<Rightarrow>
      (case date_at dts (i + 1) of
        Inl e \<Rightarrow> (Inl e, self1)
      | Inr td \<Rightarrow>
      (case pairwise_each env self1 image_paths dts rest of
        (Inl e, self2) \<Rightarrow> (Inl e, self2)
      | (Inr entries, self2) \<Rightarrow>
          (Inr (\<lparr>from_index = i, to_index = i + 1, from_date = fd, to_date = td,
                  analysis = change_analysis\<rparr> # entries), self2)))))"

definition analyze_temporal_sequence ::
  "env \<Rightarrow> analyzer \<Rightarrow> string list \<Rightarrow> string list option \<Rightarrow> (error + temporal) \<times> analyzer" where
  "analyze_temporal_sequence env self0 image_paths dts =
     (let self = (if \<not> initialized self0 then initialize env self0 else self0) in
      if length image_paths < 2
      then (Inl (ValueError ''Need at least 2 images for temporal analysis''), self)
      else
      (case classify_each env self dts 0 image_paths of
        (Inl e, self1) \<Rightarrow> (Inl e, self1)
      | (Inr ics, self1) \<Rightarrow>
      (case pairwise_each env self1 image_paths dts [0..<length image_paths - 1] of
        (Inl e, self2) \<Rightarrow> (Inl e, self2)
      | (Inr pcs, self2) \<Rightarrow>
      (if 2 \<le> length image_paths then
        (case detect_changes env self2 (image_paths ! 0) (last image_paths) 3 of
          (Inl e, self3) \<Rightarrow> (Inl e, self3)
        | (Inr overall_change, self3) \<Rightarrow>
        (case ics of
          [] \<Rightarrow> (Inl (IndexError ''list index out of range''), self3)
        | first_entry # _ \<Rightarrow>
        (case classification first_entry of
          [] \<Rightarrow> (Inl (IndexError ''list index out of range''), self3)
        | first_class # _ \<Rightarrow>
        (case classification (last ics) of
          [] \<Rightarrow> (Inl (IndexError ''list index out of range''), self3)
        | last_class # _ \<Rightarrow>
            (Inr \<lparr>num_images = length image_paths, dates = dts,
                  individual_classifications = ics, pairwise_changes = pcs,
                  overall_trend = Some
                    \<lparr>total_change_magnitude = change_magnitude overall_change,
                     primary_changes = detected_changes overall_change,
                     land_use_transition =
                       \<lparr>from_category = category first_class,
                        to_category = category last_class,
                        same_category = (category first_class = category last_class)\<rparr>\<rparr>\<rparr>,
             self3)))))
       else (Inr \<lparr>num_images = length image_paths, dates = dts,
                  individual_classifications = ics, pairwise_changes = pcs,
                  overall_trend = None\<rparr>, self2)))))"

section \<open>The singleton\<close>

text \<open>
  Analyzer objects live in a store, addressed by their position; the module variable
  \<open>_analyzer_instance\<close> holds the address of one of them or \<open>None\<close>. Creating an object
  takes the next free address.
\<close>

record pstate =
  heap :: "analyzer list"
  analyzer_instance :: "nat option"

definition get_analyzer :: "env \<Rightarrow> string \<Rightarrow> pstate \<Rightarrow> nat \<times> pstate" where
  "get_analyzer env name st =
     (let created = (length (heap st),
                     \<lparr>heap = heap st @ [RemoteCLIPAnalyzer_init env name None],
                      analyzer_instance = Some (length (heap st))\<rparr>)
      in case analyzer_instance st of
           None \<Rightarrow> created
         | Some a \<Rightarrow> if model_name (heap st ! a) \<noteq> name then created else (a, st))"

text \<open>Every reference of the state points to an object of the store.\<close>

definition wf_pstate :: "pstate \<Rightarrow> bool" where
  "wf_pstate st = (case analyzer_instance st of None \<Rightarrow> True | Some a \<Rightarrow> a < length (heap st))"

section \<open>What torch promises of \<open>topk\<close>\<close>

text \<open>
  \<open>xs.topk(k)\<close> raises unless \<open>0 \<le> k \<le> len(xs)\<close>; otherwise it returns \<open>k\<close> distinct
  positions of \<open>xs\<close>, their values in descending order, none of them below a value left
  out. The order among equal values is not part of the promise.
\<close>

definition selects_top :: "tensor \<Rightarrow> nat \<Rightarrow> nat list \<Rightarrow> bool" where
  "selects_top xs k idxs =
     (length idxs = k \<and> distinct idxs
      \<and> (\<forall>i\<in>set idxs. i < length xs)
      \<and> sorted_wrt (\<lambda>i j. topk_ge (xs ! i) (xs ! j)) idxs
      \<and> (\<forall>i\<in>set idxs. \<forall>j<length xs. j \<notin> set idxs \<longrightarrow> topk_ge (xs ! i) (xs ! j)))"

definition topk_contract :: "(tensor \<Rightarrow> int \<Rightarrow> nat list option) \<Rightarrow> bool" where
  "topk_contract tk =
     (\<forall>xs k.
        (case tk xs k of
           None \<Rightarrow> k < 0 \<or> int (length xs) < k
         | Some idxs \<Rightarrow> 0 \<le> k \<and> k \<le> int (length xs) \<and> selects_top xs (nat k) idxs))"

text \<open>
  Selections that keep the promise: the positions are ranked by insertion, from the last
  position to the first, a position passing those already ranked whose value is \<open>ahead\<close>
  of its own. With \<open>topk_gt\<close> equal values come out lower position first, with \<open>topk_ge\<close>
  higher position first.
\<close>

fun rank_insert :: "(fl \<Rightarrow> fl \<Rightarrow> bool) \<Rightarrow> tensor \<Rightarrow> nat \<Rightarrow> nat list \<Rightarrow> nat list" where
  "rank_insert ahead xs i [] = [i]"
| "rank_insert ahead xs i (j # js) =
     (if ahead (xs ! j) (xs ! i) then j # rank_insert ahead xs i js else i # j # js)"

definition rank_all :: "(fl \<Rightarrow> fl \<Rightarrow> bool) \<Rightarrow> tensor \<Rightarrow> nat list" where
  "rank_all ahead xs = foldr (rank_insert ahead xs) [0..<length xs] []"

definition topk_by :: "(fl \<Rightarrow> fl \<Rightarrow> bool) \<Rightarrow> tensor \<Rightarrow> int \<Rightarrow> nat list option" where
  "topk_by ahead xs k =
     (if k < 0 \<or> int (length xs) < k then None else Some (take (nat k) (rank_all ahead xs)))"

definition topk_low_first :: "tensor \<Rightarrow> int \<Rightarrow> nat list option" where
  "topk_low_first = topk_by topk_gt"

definition topk_high_first :: "tensor \<Rightarrow> int \<Rightarrow> nat list option" where
  "topk_high_first = topk_by topk_ge"

section \<open>A small network to run the analyzer on\<close>

text \<open>
  Two components. The image at \<open>b.png\<close> is embedded as (0, 1), every other image as
  (1, 0); the first two land-use categories are embedded as (1, 0), every other text as
  (0, 1). For an image embedded as (1, 0) the first two categories tie at confidence
  \<open>sample_hi\<close> and the other eighteen at \<open>sample_lo\<close>.
\<close>

definition sample_clip :: clip where
  "sample_clip =
     \<lparr>embed_dim = 2,
      net_encode_image = (\<lambda>p i. if p = ''b.png'' then (if i = 0 then 0 else 1)
                                 else (if i = 0 then 1 else 0)),
      net_encode_text = (\<lambda>t i. if t = ''urban area with buildings and roads''
                                     \<or> t = ''residential neighborhood with houses''
                                  then (if i = 0 then 1 else 0)
                                  else (if i = 0 then 0 else 1))\<rparr>"

definition sample_hi :: real where
  "sample_hi = exp 100 / (2 * exp 100 + 18)"

definition sample_lo :: real where
  "sample_lo = 1 / (2 * exp 100 + 18)"

definition sample_env :: env where
  "sample_env = \<lparr>load_clip = (\<lambda>n d. sample_clip), topk = topk_low_first, cuda_is_available = False\<rparr>"

definition sample_env_high :: env where
  "sample_env_high =
     \<lparr>load_clip = (\<lambda>n d. sample_clip), topk = topk_high_first, cuda_is_available = False\<rparr>"

definition sample_analyzer :: analyzer where
  "sample_analyzer = RemoteCLIPAnalyzer_init sample_env ''ViT-B-32'' None"

text \<open>An analyzer is usable when its flag tells the truth: once set, the network is there.\<close>

definition wf_analyzer :: "analyzer \<Rightarrow> bool" where
  "wf_analyzer self = (initialized self \<longrightarrow> model self \<noteq> None)"

section \<open>Notions used in the statements and proofs\<close>

text \<open>
  An order of insertion is fair when it lets pass only what is not below, and stops only at
  what is not above.
\<close>

definition fair :: "(fl \<Rightarrow> fl \<Rightarrow> bool) \<Rightarrow> bool" where
  "fair ahead = (\<forall>x y. (ahead x y \<longrightarrow> topk_ge x y) \<and> (\<not> ahead x y \<longrightarrow> topk_ge y x))"

text \<open>
  The dates accepted for \<open>n\<close> images: none, an empty list, or a list with an entry for
  every image.
\<close>

definition dates_ok :: "string list option \<Rightarrow> nat \<Rightarrow> bool" where
  "dates_ok dts n = (case dts of None \<Rightarrow> True | Some ds \<Rightarrow> ds = [] \<or> n \<le> length ds)"

text \<open>
  Names for what the methods compute with the network \<open>m\<close>: the tensors returned by
  \<open>encode_image\<close> and, row by row, by \<open>encode_texts\<close>; the tensor \<open>probs\<close> of
  \<open>classify_land_use\<close>; the tensor \<open>combined_features\<close> and the tensor \<open>probs\<close> of
  \<open>detect_changes\<close>.
\<close>

definition image_vec :: "clip \<Rightarrow> string \<Rightarrow> tensor" where
  "image_vec m p =
     (let image_features = map (\<lambda>i. Fin (net_encode_image m p i)) [0..<embed_dim m]
      in t_div image_features (t_norm image_features))"

definition text_vec :: "clip \<Rightarrow> string \<Rightarrow> tensor" where
  "text_vec m t =
     (let text_features = map (\<lambda>i. Fin (net_encode_text m t i)) [0..<embed_dim m]
      in t_div text_features (t_norm text_features))"

definition land_probs :: "clip \<Rightarrow> string \<Rightarrow> tensor" where
  "land_probs m p =
     softmax (t_scale (t_matmul_T (image_vec m p) (map (text_vec m) LAND_USE_CATEGORIES)) (Fin 100))"

definition change_query :: "tensor \<Rightarrow> tensor \<Rightarrow> tensor" where
  "change_query features1 features2 =
     (let diff0 = t_sub features2 features1;
          diff_features = t_div diff0 (t_norm diff0);
          combined0 = t_add features2 (t_scale diff_features (Fin 0.5))
      in t_div combined0 (t_norm combined0))"

definition change_probs :: "clip \<Rightarrow> string \<Rightarrow> string \<Rightarrow> tensor" where
  "change_probs m p1 p2 =
     softmax (t_scale (t_matmul_T (change_query (image_vec m p1) (image_vec m p2))
        (map (\<lambda>d. text_vec m (''This area shows '' @ d)) CHANGE_DESCRIPTIONS)) (Fin 100))"

text \<open>
  For the finite case: a tensor given by its real components, the sum of their squares, and
  the components divided by the norm; and what it means that the network does not return
  the zero vector for an image or a text.
\<close>

definition fin_tensor :: "nat \<Rightarrow> (nat \<Rightarrow> real) \<Rightarrow> tensor" where
  "fin_tensor n f = map (\<lambda>i. Fin (f i)) [0..<n]"

definition ssq :: "nat \<Rightarrow> (nat \<Rightarrow> real) \<Rightarrow> real" where
  "ssq n f = sum_list (map (\<lambda>i. f i * f i) [0..<n])"

definition unit_of :: "nat \<Rightarrow> (nat \<Rightarrow> real) \<Rightarrow> nat \<Rightarrow> real" where
  "unit_of n f i = f i / sqrt (ssq n f)"

definition image_nonzero :: "clip \<Rightarrow> string \<Rightarrow> bool" where
  "image_nonzero m p = (\<exists>i<embed_dim m. net_encode_image m p i \<noteq> 0)"

definition text_nonzero :: "clip \<Rightarrow> string \<Rightarrow> bool" where
  "text_nonzero m t = (\<exists>i<embed_dim m. net_encode_text m t i \<noteq> 0)"

text \<open>Three states of the process: no analyzer yet, one analyzer, and a second one in use.\<close>

definition empty_pstate :: pstate where
  "empty_pstate = \<lparr>heap = [], analyzer_instance = None\<rparr>"

definition one_pstate :: pstate where
  "one_pstate = \<lparr>heap = [RemoteCLIPAnalyzer_init sample_env ''ViT-B-32'' None],
                  analyzer_instance = Some 0\<rparr>"

definition two_pstate :: pstate where
  "two_pstate = \<lparr>heap = [RemoteCLIPAnalyzer_init sample_env ''ViT-B-32'' None,
                          RemoteCLIPAnalyzer_init sample_env ''RN50'' None],
                  analyzer_instance = Some 1\<rparr>"

section \<open>Supporting lemmas\<close>

subsection \<open>The ranking order of topk and the two selections\<close>

lemma topk_ge_refl: "topk_ge x x"
  by (cases x) (simp_all add: topk_ge_def topk_gt_def)

lemma topk_ge_trans: "topk_ge x y \<Longrightarrow> topk_ge y z \<Longrightarrow> topk_ge x z"
  by (cases x; cases y; cases z) (simp_all add: topk_ge_def topk_gt_def)

lemma topk_ge_total: "topk_ge x y \<or> topk_ge y x"
  by (cases x; cases y) (auto simp add: topk_ge_def topk_gt_def)

lemma topk_ge_Fin: "topk_ge (Fin x) (Fin y) = (y \<le> x)"
  by (auto simp add: topk_ge_def topk_gt_def)

lemma topk_gt_imp_ge: "topk_gt x y \<Longrightarrow> topk_ge x y"
  by (cases x; cases y) (auto simp add: topk_ge_def topk_gt_def)

lemma not_topk_gt_imp_ge: "\<not> topk_gt x y \<Longrightarrow> topk_ge y x"
  by (simp add: topk_ge_def)

lemma fair_gt: "fair topk_gt"
  by (simp add: fair_def topk_gt_imp_ge not_topk_gt_imp_ge)

lemma fair_ge: "fair topk_ge"
  using topk_ge_total by (auto simp add: fair_def)

lemma set_rank_insert: "set (rank_insert ahead xs i js) = insert i (set js)"
  by (induction js) auto

lemma length_rank_insert: "length (rank_insert ahead xs i js) = Suc (length js)"
  by (induction js) auto

lemma distinct_rank_insert: "distinct js \<Longrightarrow> i \<notin> set js \<Longrightarrow> distinct (rank_insert ahead xs i js)"
  by (induction js) (auto simp add: set_rank_insert)

lemma sorted_rank_insert:
  assumes "fair ahead" and "sorted_wrt (\<lambda>i j. topk_ge (xs ! i) (xs ! j)) js"
  shows "sorted_wrt (\<lambda>i j. topk_ge (xs ! i) (xs ! j)) (rank_insert ahead xs i js)"
  using assms(2)
proof (induction js)
  case Nil
  then show ?case by simp
next
  case (Cons j js)
  show ?case
  proof (cases "ahead (xs ! j) (xs ! i)")
    case True
    then have "topk_ge (xs ! j) (xs ! i)" using assms(1) by (simp add: fair_def)
    with True Cons show ?thesis by (auto simp add: set_rank_insert)
  next
    case False
    then have ij: "topk_ge (xs ! i) (xs ! j)" using assms(1) by (simp add: fair_def)
    have "\<forall>l\<in>set js. topk_ge (xs ! i) (xs ! l)"
      using Cons.prems ij topk_ge_trans by auto
    with False ij Cons.prems show ?thesis by simp
  qed
qed

lemma rank_fold_props:
  assumes "fair ahead"
  shows "set (foldr (rank_insert ahead xs) ns []) = set ns
       \<and> length (foldr (rank_insert ahead xs) ns []) = length ns
       \<and> (distinct ns \<longrightarrow> distinct (foldr (rank_insert ahead xs) ns []))
       \<and> sorted_wrt (\<lambda>i j. topk_ge (xs ! i) (xs ! j)) (foldr (rank_insert ahead xs) ns [])"
  by (induction ns)
     (auto simp add: set_rank_insert length_rank_insert distinct_rank_insert
        sorted_rank_insert [OF assms])

lemma rank_all_props:
  assumes "fair ahead"
  shows "set (rank_all ahead xs) = {0..<length xs}"
    and "length (rank_all ahead xs) = length xs"
    and "distinct (rank_all ahead xs)"
    and "sorted_wrt (\<lambda>i j. topk_ge (xs ! i) (xs ! j)) (rank_all ahead xs)"
  using rank_fold_props [OF assms, of xs "[0..<length xs]"] by (simp_all add: rank_all_def)

lemma topk_by_contract:
  assumes "fair ahead"
  shows "topk_contract (topk_by ahead)"
  unfolding topk_contract_def
proof (intro allI)
  fix xs :: tensor and k :: int
  let ?r = "rank_all ahead xs"
  let ?P = "\<lambda>i j. topk_ge (xs ! i) (xs ! j)"
  note props = rank_all_props [OF assms, of xs]
  show "case topk_by ahead xs k of
           None \<Rightarrow> k < 0 \<or> int (length xs) < k
         | Some idxs \<Rightarrow> 0 \<le> k \<and> k \<le> int (length xs) \<and> selects_top xs (nat k) idxs"
  proof (cases "k < 0 \<or> int (length xs) < k")
    case True
    then show ?thesis by (simp add: topk_by_def)
  next
    case False
    then have k: "0 \<le> k" "k \<le> int (length xs)" by auto
    have split: "?r = take (nat k) ?r @ drop (nat k) ?r" by simp
    have sorted: "sorted_wrt ?P (take (nat k) ?r @ drop (nat k) ?r)"
      using props(4) by simp
    have cross: "\<forall>i\<in>set (take (nat k) ?r). \<forall>j\<in>set (drop (nat k) ?r). ?P i j"
      using sorted unfolding sorted_wrt_append by blast
    have st: "sorted_wrt ?P (take (nat k) ?r)"
      using sorted unfolding sorted_wrt_append by blast
    have in_range: "\<forall>i\<in>set (take (nat k) ?r). i < length xs"
      using props(1) by (auto dest: in_set_takeD)
    have rest: "\<forall>j<length xs. j \<notin> set (take (nat k) ?r) \<longrightarrow> j \<in> set (drop (nat k) ?r)"
    proof (intro allI impI)
      fix j assume "j < length xs" "j \<notin> set (take (nat k) ?r)"
      then have "j \<in> set ?r" using props(1) by simp
      then have "j \<in> set (take (nat k) ?r) \<union> set (drop (nat k) ?r)"
        by (metis append_take_drop_id set_append)
      with \<open>j \<notin> set (take (nat k) ?r)\<close> show "j \<in> set (drop (nat k) ?r)" by blast
    qed
    have len: "length (take (nat k) ?r) = nat k"
      using k props(2) by simp
    have dist: "distinct (take (nat k) ?r)"
      using props(3) by simp
    show ?thesis
      using False k len dist in_range st cross rest by (simp add: topk_by_def selects_top_def)
  qed
qed

lemma topk_low_first_contract: "topk_contract topk_low_first"
  unfolding topk_low_first_def by (rule topk_by_contract [OF fair_gt])

lemma topk_high_first_contract: "topk_contract topk_high_first"
  unfolding topk_high_first_def by (rule topk_by_contract [OF fair_ge])

subsection \<open>The methods in closed form\<close>

lemma initialize_idem: "initialized s \<Longrightarrow> initialize env s = s"
  by (simp add: initialize_def)

lemma initialize_ready:
  "wf_analyzer s \<Longrightarrow> \<exists>m. model (initialize env s) = Some m \<and> initialized (initialize env s)"
  by (auto simp add: initialize_def wf_analyzer_def)

lemma ensure_eq: "(if \<not> initialized s then initialize env s else s) = initialize env s"
  by (simp add: initialize_def)

lemma encode_image_eq: "model s = Some m \<Longrightarrow> encode_image s p = Inr (image_vec m p)"
  by (simp add: encode_image_def image_vec_def Let_def)

lemma encode_texts_eq: "model s = Some m \<Longrightarrow> encode_texts s ts = Inr (map (text_vec m) ts)"
  by (simp add: encode_texts_def text_vec_def Let_def)

lemma length_softmax: "length (softmax xs) = length xs"
  by (simp add: softmax_def Let_def)

lemma length_land_probs: "length (land_probs m p) = 20"
  by (simp add: land_probs_def length_softmax t_scale_def t_matmul_T_def LAND_USE_CATEGORIES_def)

lemma length_change_probs: "length (change_probs m p1 p2) = 15"
  by (simp add: change_probs_def length_softmax t_scale_def t_matmul_T_def CHANGE_DESCRIPTIONS_def)

lemma classify_land_use_eq:
  assumes "model (initialize env s) = Some m"
  shows "classify_land_use env s p k =
     (case topk env (land_probs m p) k of
        None \<Rightarrow> (Inl (RuntimeError ''selected index k out of range''), initialize env s)
      | Some idxs \<Rightarrow>
          (Inr (map (\<lambda>idx. \<lparr>category = LAND_USE_CATEGORIES ! idx,
                             confidence = land_probs m p ! idx\<rparr>) idxs), initialize env s))"
  unfolding classify_land_use_def ensure_eq
  by (simp add: encode_image_eq [OF assms] encode_texts_eq [OF assms] land_probs_def Let_def
        split: option.splits)

lemma detect_changes_eq:
  assumes "model (initialize env s) = Some m"
  shows "detect_changes env s p1 p2 k =
     (case topk env (change_probs m p1 p2) k of
        None \<Rightarrow> (Inl (RuntimeError ''selected index k out of range''), initialize env s)
      | Some idxs \<Rightarrow>
          (Inr \<lparr>overall_similarity = t_dot (image_vec m p1) (image_vec m p2),
                change_magnitude = fl_sub (Fin 1) (t_dot (image_vec m p1) (image_vec m p2)),
                detected_changes = map (\<lambda>idx. \<lparr>description = CHANGE_DESCRIPTIONS ! idx,
                             change_confidence = change_probs m p1 p2 ! idx\<rparr>) idxs\<rparr>,
           initialize env s))"
  unfolding detect_changes_def ensure_eq
  by (simp add: encode_image_eq [OF assms] encode_texts_eq [OF assms] change_probs_def
        change_query_def Let_def comp_def split: option.splits)

subsection \<open>What follows from the promise of topk\<close>

lemma topk_contract_None:
  "topk_contract tk \<Longrightarrow> (tk xs k = None) = (k < 0 \<or> int (length xs) < k)"
proof -
  assume c: "topk_contract tk"
  have "case tk xs k of None \<Rightarrow> k < 0 \<or> int (length xs) < k
        | Some idxs \<Rightarrow> 0 \<le> k \<and> k \<le> int (length xs)"
    using c [unfolded topk_contract_def, rule_format, where xs = xs and k = k]
    by (simp split: option.splits)
  then show ?thesis by (auto split: option.splits)
qed

lemma topk_contract_Some:
  assumes "topk_contract tk" and "tk xs k = Some idxs"
  shows "0 \<le> k" and "k \<le> int (length xs)" and "length idxs = nat k" and "distinct idxs"
    and "\<forall>i\<in>set idxs. i < length xs"
    and "sorted_wrt (\<lambda>i j. topk_ge (xs ! i) (xs ! j)) idxs"
    and "\<forall>i\<in>set idxs. \<forall>j<length xs. j \<notin> set idxs \<longrightarrow> topk_ge (xs ! i) (xs ! j)"
  using assms(1) [unfolded topk_contract_def, rule_format, where xs = xs and k = k] assms(2)
  by (simp_all add: selects_top_def)

lemma topk_contract_selects:
  assumes "topk_contract tk" and "tk xs k = Some idxs"
  shows "selects_top xs (nat k) idxs"
  using assms(1) [unfolded topk_contract_def, rule_format, where xs = xs and k = k] assms(2)
  by simp

lemma topk_contract_returns:
  assumes "topk_contract tk" and "0 \<le> k" and "k \<le> int (length xs)"
  shows "\<exists>idxs. tk xs k = Some idxs"
  using topk_contract_None [OF assms(1), of xs k] assms(2,3) by auto

lemma length_LAND: "length LAND_USE_CATEGORIES = 20"
  by (simp add: LAND_USE_CATEGORIES_def)

lemma length_CHANGE: "length CHANGE_DESCRIPTIONS = 15"
  by (simp add: CHANGE_DESCRIPTIONS_def)

lemma classify_top1:
  assumes m: "model (initialize env self) = Some m" and c: "topk_contract (topk env)"
  shows "\<exists>i. topk env (land_probs m p) 1 = Some [i] \<and> i < 20"
proof -
  from topk_contract_returns [OF c, of 1 "land_probs m p"]
  obtain idxs where s: "topk env (land_probs m p) 1 = Some idxs"
    by (auto simp add: length_land_probs)
  note k = topk_contract_Some [OF c s]
  from k(3) obtain i where "idxs = [i]"
    by (cases idxs) auto
  with s k(5) show ?thesis by (simp add: length_land_probs)
qed

subsection \<open>The sample network, evaluated\<close>

lemma sample_wf: "wf_analyzer sample_analyzer"
  by (simp add: wf_analyzer_def sample_analyzer_def RemoteCLIPAnalyzer_init_def)

lemma sample_contract: "topk_contract (topk sample_env)"
  by (simp add: sample_env_def topk_low_first_contract)

lemma sample_high_contract: "topk_contract (topk sample_env_high)"
  by (simp add: sample_env_high_def topk_high_first_contract)

lemma sample_ready: "model (initialize sample_env sample_analyzer) = Some sample_clip"
  by (simp add: initialize_def sample_analyzer_def RemoteCLIPAnalyzer_init_def sample_env_def)

lemma sample_high_ready: "model (initialize sample_env_high sample_analyzer) = Some sample_clip"
  by (simp add: initialize_def sample_analyzer_def RemoteCLIPAnalyzer_init_def sample_env_high_def)

lemma upt_2: "[0..<2] = [0, Suc 0]"
  by (simp add: upt_rec)

lemma image_vec_a: "image_vec sample_clip ''a.png'' = [Fin 1, Fin 0]"
  by (simp add: image_vec_def sample_clip_def upt_2 t_div_def t_norm_def fl_sum_def Let_def)

lemma text_vec_urban:
  "text_vec sample_clip ''urban area with buildings and roads'' = [Fin 1, Fin 0]"
  by (simp add: text_vec_def sample_clip_def upt_2 t_div_def t_norm_def fl_sum_def Let_def)

lemma text_vec_residential:
  "text_vec sample_clip ''residential neighborhood with houses'' = [Fin 1, Fin 0]"
  by (simp add: text_vec_def sample_clip_def upt_2 t_div_def t_norm_def fl_sum_def Let_def)

lemma text_vec_other:
  "t \<noteq> ''urban area with buildings and roads'' \<Longrightarrow> t \<noteq> ''residential neighborhood with houses''
     \<Longrightarrow> text_vec sample_clip t = [Fin 0, Fin 1]"
  by (simp add: text_vec_def sample_clip_def upt_2 t_div_def t_norm_def fl_sum_def Let_def)

lemma sample_total_pos: "0 < 2 * exp (100::real) + 18"
  by (simp add: add_pos_pos)

lemma sample_lo_less_hi: "sample_lo < sample_hi"
  unfolding sample_lo_def sample_hi_def using sample_total_pos
  by (simp add: divide_strict_right_mono)

lemma land_scores_a:
  "t_scale (t_matmul_T (image_vec sample_clip ''a.png'') (map (text_vec sample_clip) LAND_USE_CATEGORIES)) (Fin 100)
    = [Fin 100, Fin 100, Fin 0, Fin 0, Fin 0, Fin 0, Fin 0, Fin 0, Fin 0, Fin 0,
       Fin 0, Fin 0, Fin 0, Fin 0, Fin 0, Fin 0, Fin 0, Fin 0, Fin 0, Fin 0]"
  by (simp add: image_vec_a LAND_USE_CATEGORIES_def text_vec_urban text_vec_residential
        text_vec_other t_matmul_T_def t_dot_def t_scale_def fl_sum_def)

lemma land_probs_a:
  "land_probs sample_clip ''a.png'' =
     [Fin sample_hi, Fin sample_hi, Fin sample_lo, Fin sample_lo, Fin sample_lo,
      Fin sample_lo, Fin sample_lo, Fin sample_lo, Fin sample_lo, Fin sample_lo,
      Fin sample_lo, Fin sample_lo, Fin sample_lo, Fin sample_lo, Fin sample_lo,
      Fin sample_lo, Fin sample_lo, Fin sample_lo, Fin sample_lo, Fin sample_lo]"
  unfolding land_probs_def land_scores_a
  using sample_total_pos
  by (simp add: softmax_def fl_sum_def Let_def sample_hi_def sample_lo_def)

lemma upt_20: "[0..<20] = [0,1,2,3,4,5,6,7,8,9,10,11,12,13,14,15,16,17,18,19]"
  by (simp add: upt_rec)

lemma rank_low_ties:
  "rank_all topk_gt (land_probs sample_clip ''a.png'') = [0..<20]"
  unfolding rank_all_def land_probs_a using sample_lo_less_hi
  by (simp add: upt_20 topk_gt_def)

lemma rank_high_ties:
  "rank_all topk_ge (land_probs sample_clip ''a.png'')
     = [1,0,19,18,17,16,15,14,13,12,11,10,9,8,7,6,5,4,3,2]"
  unfolding rank_all_def land_probs_a using sample_lo_less_hi
  by (simp add: upt_20 topk_gt_def topk_ge_def)

lemma change_query_same: "change_query [Fin 1, Fin 0] [Fin 1, Fin 0] = [NaN, NaN]"
  by (simp add: change_query_def t_sub_def t_add_def t_scale_def t_div_def t_norm_def
        fl_sum_def fl_sub_def Let_def)

lemma change_probs_aa: "change_probs sample_clip ''a.png'' ''a.png'' =
     [NaN, NaN, NaN, NaN, NaN, NaN, NaN, NaN, NaN, NaN, NaN, NaN, NaN, NaN, NaN]"
  by (simp add: change_probs_def image_vec_a text_vec_other change_query_same
        CHANGE_DESCRIPTIONS_def t_matmul_T_def t_dot_def t_scale_def softmax_def fl_sum_def Let_def)

lemma upt_15: "[0..<15] = [0,1,2,3,4,5,6,7,8,9,10,11,12,13,14]"
  by (simp add: upt_rec)

lemma rank_low_nan: "rank_all topk_gt (
     [NaN, NaN, NaN, NaN, NaN, NaN, NaN, NaN, NaN, NaN, NaN, NaN, NaN, NaN, NaN]) = [0..<15]"
  unfolding rank_all_def by (simp add: upt_15 topk_gt_def)

lemma image_vec_b: "image_vec sample_clip ''b.png'' = [Fin 0, Fin 1]"
  by (simp add: image_vec_def sample_clip_def upt_2 t_div_def t_norm_def fl_sum_def Let_def)

subsection \<open>The loops of the sequence analysis\<close>

lemma date_at_ok: "dates_ok dts n \<Longrightarrow> i < n \<Longrightarrow> \<exists>d. date_at dts i = Inr d"
  by (auto simp add: dates_ok_def date_at_def split: option.splits)

lemma initialize_twice: "initialize env (initialize env s) = initialize env s"
  by (simp add: initialize_def)

lemma classify_land_use_initialized:
  "classify_land_use env (initialize env s) p k = classify_land_use env s p k"
  by (simp add: classify_land_use_def ensure_eq initialize_twice)

lemma detect_changes_initialized:
  "detect_changes env (initialize env s) p1 p2 k = detect_changes env s p1 p2 k"
  by (simp add: detect_changes_def ensure_eq initialize_twice)

lemma classify_two:
  assumes "model s = Some m" and "initialized s" and "topk_contract (topk env)"
  shows "\<exists>c1 c2. classify_land_use env s p 2 = (Inr [c1, c2], s)"
proof -
  have m: "model (initialize env s) = Some m"
    using assms(1,2) by (simp add: initialize_idem)
  from topk_contract_returns [OF assms(3), of 2 "land_probs m p"]
  obtain idxs where s: "topk env (land_probs m p) 2 = Some idxs"
    by (auto simp add: length_land_probs)
  from topk_contract_Some(3) [OF assms(3) s] have "length idxs = Suc (Suc 0)" by simp
  then obtain i j where "idxs = [i, j]"
    by (auto simp add: length_Suc_conv)
  with s show ?thesis
    by (simp add: classify_land_use_eq [OF m] initialize_idem [OF assms(2)])
qed

lemma detect_three:
  assumes "model s = Some m" and "initialized s" and "topk_contract (topk env)"
  shows "\<exists>r. detect_changes env s p1 p2 3 = (Inr r, s)"
proof -
  have m: "model (initialize env s) = Some m"
    using assms(1,2) by (simp add: initialize_idem)
  from topk_contract_returns [OF assms(3), of 3 "change_probs m p1 p2"]
  obtain idxs where s: "topk env (change_probs m p1 p2) 3 = Some idxs"
    by (auto simp add: length_change_probs)
  then show ?thesis
    by (simp add: detect_changes_eq [OF m] initialize_idem [OF assms(2)])
qed

lemma classify_each_ok:
  assumes "model s = Some m" and "initialized s" and "topk_contract (topk env)"
    and "dates_ok dts n"
  shows "i0 + length ps \<le> n \<Longrightarrow>
         \<exists>entries. classify_each env s dts i0 ps = (Inr entries, s)
           \<and> length entries = length ps
           \<and> (\<forall>j<length ps. index (entries ! j) = i0 + j
                 \<and> (\<exists>c1 c2. classification (entries ! j) = [c1, c2])
                 \<and> fst (classify_land_use env s (ps ! j) 2) = Inr (classification (entries ! j)))"
proof (induction ps arbitrary: i0)
  case Nil
  then show ?case by simp
next
  case (Cons path rest)
  from classify_two [OF assms(1-3), of path] obtain c1 c2
    where cl: "classify_land_use env s path 2 = (Inr [c1, c2], s)" by blast
  from date_at_ok [OF assms(4), of i0] Cons.prems obtain d
    where d: "date_at dts i0 = Inr d" by auto
  have "Suc i0 + length rest \<le> n" using Cons.prems by simp
  from Cons.IH [OF this] obtain entries
    where r: "classify_each env s dts (Suc i0) rest = (Inr entries, s)"
      and l: "length entries = length rest"
      and e: "\<forall>j<length rest. index (entries ! j) = Suc i0 + j
                 \<and> (\<exists>c1 c2. classification (entries ! j) = [c1, c2])
                 \<and> fst (classify_land_use env s (rest ! j) 2) = Inr (classification (entries ! j))"
    by (elim exE conjE)
  let ?entry = "\<lparr>index = i0, date = d, classification = [c1, c2]\<rparr>"
  have run: "classify_each env s dts i0 (path # rest) = (Inr (?entry # entries), s)"
    by (simp add: encode_image_eq [OF assms(1)] cl d r)
  have each: "\<forall>j<length (path # rest). index ((?entry # entries) ! j) = i0 + j
        \<and> (\<exists>c1 c2. classification ((?entry # entries) ! j) = [c1, c2])
        \<and> fst (classify_land_use env s ((path # rest) ! j) 2)
            = Inr (classification ((?entry # entries) ! j))"
  proof (intro allI impI)
    fix j assume j: "j < length (path # rest)"
    show "index ((?entry # entries) ! j) = i0 + j
        \<and> (\<exists>c1 c2. classification ((?entry # entries) ! j) = [c1, c2])
        \<and> fst (classify_land_use env s ((path # rest) ! j) 2)
            = Inr (classification ((?entry # entries) ! j))"
    proof (cases j)
      case 0
      then show ?thesis by (simp add: cl)
    next
      case (Suc j')
      with j have "j' < length rest" by simp
      with e Suc show ?thesis by simp
    qed
  qed
  have len: "length (?entry # entries) = length (path # rest)" using l by simp
  show ?case
    by (rule exI [of _ "?entry # entries"]) (intro conjI run len each)
qed

lemma pairwise_each_ok:
  assumes "model s = Some m" and "initialized s" and "topk_contract (topk env)"
    and "dates_ok dts n"
  shows "\<forall>i\<in>set is. Suc i < n \<Longrightarrow>
         \<exists>entries. pairwise_each env s ps dts is = (Inr entries, s)
           \<and> length entries = length is
           \<and> (\<forall>j<length is. from_index (entries ! j) = is ! j
                 \<and> to_index (entries ! j) = is ! j + 1
                 \<and> fst (detect_changes env s (ps ! (is ! j)) (ps ! (is ! j + 1)) 3)
                     = Inr (analysis (entries ! j)))"
proof (induction "is")
  case Nil
  then show ?case by simp
next
  case (Cons i rest)
  from detect_three [OF assms(1-3), of "ps ! i" "ps ! (i + 1)"] obtain ca
    where dc: "detect_changes env s (ps ! i) (ps ! (i + 1)) 3 = (Inr ca, s)" by blast
  from date_at_ok [OF assms(4), of i] Cons.prems obtain fd
    where fd: "date_at dts i = Inr fd" by auto
  from date_at_ok [OF assms(4), of "i + 1"] Cons.prems obtain td
    where td: "date_at dts (i + 1) = Inr td" by auto
  have "\<forall>i\<in>set rest. Suc i < n" using Cons.prems by simp
  from Cons.IH [OF this] obtain entries
    where r: "pairwise_each env s ps dts rest = (Inr entries, s)"
      and l: "length entries = length rest"
      and e: "\<forall>j<length rest. from_index (entries ! j) = rest ! j
                 \<and> to_index (entries ! j) = rest ! j + 1
                 \<and> fst (detect_changes env s (ps ! (rest ! j)) (ps ! (rest ! j + 1)) 3)
                     = Inr (analysis (entries ! j))"
    by (elim exE conjE)
  let ?entry = "\<lparr>from_index = i, to_index = i + 1, from_date = fd, to_date = td, analysis = ca\<rparr>"
  have run: "pairwise_each env s ps dts (i # rest) = (Inr (?entry # entries), s)"
    using dc fd td r by simp
  have each: "\<forall>j<length (i # rest). from_index ((?entry # entries) ! j) = (i # rest) ! j
        \<and> to_index ((?entry # entries) ! j) = (i # rest) ! j + 1
        \<and> fst (detect_changes env s (ps ! ((i # rest) ! j)) (ps ! ((i # rest) ! j + 1)) 3)
            = Inr (analysis ((?entry # entries) ! j))"
  proof (intro allI impI)
    fix j assume j: "j < length (i # rest)"
    show "from_index ((?entry # entries) ! j) = (i # rest) ! j
        \<and> to_index ((?entry # entries) ! j) = (i # rest) ! j + 1
        \<and> fst (detect_changes env s (ps ! ((i # rest) ! j)) (ps ! ((i # rest) ! j + 1)) 3)
            = Inr (analysis ((?entry # entries) ! j))"
    proof (cases j)
      case 0
      then show ?thesis using dc by simp
    next
      case (Suc j')
      with j have "j' < length rest" by simp
      with e Suc show ?thesis by simp
    qed
  qed
  have len: "length (?entry # entries) = length (i # rest)" using l by simp
  show ?case
    by (rule exI [of _ "?entry # entries"]) (intro conjI run len each)
qed

lemma topk_low_ties_3:
  "topk sample_env (land_probs sample_clip ''a.png'') 3 = Some [0, 1, 2]"
  by (simp add: sample_env_def topk_low_first_def topk_by_def length_land_probs rank_low_ties
        upt_20)

lemma classify_sample_3:
  "fst (classify_land_use sample_env sample_analyzer ''a.png'' 3)
     = Inr [\<lparr>category = ''urban area with buildings and roads'', confidence = Fin sample_hi\<rparr>,
            \<lparr>category = ''residential neighborhood with houses'', confidence = Fin sample_hi\<rparr>,
            \<lparr>category = ''industrial zone with factories'', confidence = Fin sample_lo\<rparr>]"
  by (simp add: classify_land_use_eq [OF sample_ready] topk_low_ties_3)
     (simp add: land_probs_a LAND_USE_CATEGORIES_def)

subsection \<open>NaN from equal embeddings\<close>

lemma fl_sum_Cons: "fl_sum (x # xs) = fl_add x (fl_sum xs)"
  by (simp add: fl_sum_def)

lemma fl_add_NaN_right: "fl_add x NaN = NaN"
  by (cases x) simp_all

lemma fl_sum_NaN: "NaN \<in> set xs \<Longrightarrow> fl_sum xs = NaN"
  by (induction xs) (auto simp add: fl_sum_Cons fl_add_NaN_right)

lemma fl_div_NaN_right: "fl_div x NaN = NaN"
  by (cases x) simp_all

lemma fl_mul_NaN_right: "fl_mul x NaN = NaN"
  by (cases x) simp_all

lemma fl_sub_self: "fl_sub x x = Fin 0 \<or> fl_sub x x = NaN"
  by (cases x) (simp_all add: fl_sub_def)

lemma sum_squares_zero_or_nan:
  "\<forall>x\<in>set d. x = Fin 0 \<or> x = NaN \<Longrightarrow>
     fl_sum (map (\<lambda>x. fl_mul x x) d) = Fin 0 \<or> fl_sum (map (\<lambda>x. fl_mul x x) d) = NaN"
  by (induction d) (auto simp add: fl_sum_Cons fl_add_NaN_right, simp add: fl_sum_def)

lemma norm_zero_or_nan:
  assumes "\<forall>x\<in>set d. x = Fin 0 \<or> x = NaN"
  shows "t_norm d = Fin 0 \<or> t_norm d = NaN"
  using sum_squares_zero_or_nan [OF assms] by (auto simp add: t_norm_def)

lemma normalise_zero_tensor:
  assumes "\<forall>x\<in>set d. x = Fin 0 \<or> x = NaN"
  shows "\<forall>y\<in>set (t_div d (t_norm d)). y = NaN"
  using norm_zero_or_nan [OF assms] assms by (auto simp add: t_div_def)

lemma t_sub_self: "\<forall>x\<in>set (t_sub v v). x = Fin 0 \<or> x = NaN"
proof (induction v)
  case Nil
  then show ?case by (simp add: t_sub_def)
next
  case (Cons a v)
  with fl_sub_self [of a] show ?case by (auto simp add: t_sub_def)
qed

lemma change_query_same_nan: "\<forall>y\<in>set (change_query v v). y = NaN"
proof -
  let ?d = "t_div (t_sub v v) (t_norm (t_sub v v))"
  have d: "\<forall>y\<in>set ?d. y = NaN"
    by (rule normalise_zero_tensor [OF t_sub_self])
  have s: "\<forall>y\<in>set (t_scale ?d (Fin 0.5)). y = NaN"
    using d by (auto simp add: t_scale_def)
  have "\<forall>y\<in>set (t_add v (t_scale ?d (Fin 0.5))). y = NaN"
  proof
    fix y assume "y \<in> set (t_add v (t_scale ?d (Fin 0.5)))"
    then obtain a b where ab: "(a, b) \<in> set (zip v (t_scale ?d (Fin 0.5)))" "y = fl_add a b"
      by (auto simp add: t_add_def)
    from ab(1) have "b \<in> set (t_scale ?d (Fin 0.5))" by (rule set_zip_rightD)
    with s have "b = NaN" by blast
    with ab(2) show "y = NaN" by (simp add: fl_add_NaN_right)
  qed
  then have "\<forall>y\<in>set (t_div (t_add v (t_scale ?d (Fin 0.5))) (t_norm (t_add v (t_scale ?d (Fin 0.5))))). y = NaN"
    by (auto simp add: t_div_def)
  then show ?thesis by (simp add: change_query_def Let_def)
qed

lemma length_image_vec: "length (image_vec m p) = embed_dim m"
  by (simp add: image_vec_def t_div_def Let_def)

lemma length_text_vec: "length (text_vec m t) = embed_dim m"
  by (simp add: text_vec_def t_div_def Let_def)

lemma length_change_query: "length (change_query v v) = length v"
  by (simp add: change_query_def t_div_def t_add_def t_scale_def t_sub_def Let_def)

lemma t_dot_nan:
  assumes "\<forall>y\<in>set q. y = NaN" and "q \<noteq> []" and "c \<noteq> []"
  shows "t_dot q c = NaN"
proof -
  obtain q0 qs where q: "q = q0 # qs" using assms(2) by (cases q) auto
  obtain c0 cs where c: "c = c0 # cs" using assms(3) by (cases c) auto
  have "q0 = NaN" using assms(1) q by simp
  then show ?thesis by (simp add: t_dot_def q c fl_sum_Cons)
qed

lemma softmax_nan:
  assumes "\<forall>x\<in>set xs. x = NaN"
  shows "\<forall>p\<in>set (softmax xs). p = NaN"
  using assms by (auto simp add: softmax_def Let_def)

lemma change_probs_identical:
  assumes "image_vec m p1 = image_vec m p2" and "0 < embed_dim m"
  shows "\<forall>x\<in>set (change_probs m p1 p2). x = NaN"
proof -
  let ?q = "change_query (image_vec m p2) (image_vec m p2)"
  have q: "\<forall>y\<in>set ?q. y = NaN" by (rule change_query_same_nan)
  have qn: "?q \<noteq> []"
    using assms(2) length_change_query [of "image_vec m p2"] length_image_vec [of m p2]
    by (metis length_0_conv less_not_refl)
  have tn: "text_vec m t \<noteq> []" for t
    using assms(2) length_text_vec [of m t] by (metis length_0_conv less_not_refl)
  have "\<forall>x\<in>set (t_scale (t_matmul_T ?q
           (map (\<lambda>d. text_vec m (''This area shows '' @ d)) CHANGE_DESCRIPTIONS)) (Fin 100)). x = NaN"
    using t_dot_nan [OF q qn tn] by (auto simp add: t_scale_def t_matmul_T_def)
  from softmax_nan [OF this] show ?thesis
    by (simp add: change_probs_def assms(1))
qed

lemma detect_changes_identical_nan:
  assumes "topk_contract (topk env)" and "model (initialize env self) = Some m"
    and "0 < embed_dim m" and "image_vec m p1 = image_vec m p2"
    and "fst (detect_changes env self p1 p2 k) = Inr r"
  shows "\<forall>c\<in>set (detected_changes r). change_confidence c = NaN"
proof (cases "topk env (change_probs m p1 p2) k")
  case None
  with assms(5) show ?thesis by (simp add: detect_changes_eq [OF assms(2)])
next
  case (Some idxs)
  have 1: "change_probs m p1 p2 ! i = NaN" if "i < 15" for i
    using change_probs_identical [OF assms(4,3)] that
    by (metis length_change_probs nth_mem)
  have 2: "\<forall>i\<in>set idxs. i < 15"
    using topk_contract_Some(5) [OF assms(1) Some] by (simp add: length_change_probs)
  have "detected_changes r = map (\<lambda>idx. \<lparr>description = CHANGE_DESCRIPTIONS ! idx,
                             change_confidence = change_probs m p1 p2 ! idx\<rparr>) idxs"
    using assms(5) Some by (auto simp add: detect_changes_eq [OF assms(2)])
  then show ?thesis using 1 2 by auto
qed

subsection \<open>Softmax on finite scores\<close>

lemma fl_sum_Fin: "fl_sum (map (\<lambda>r. Fin (f r)) rs) = Fin (sum_list (map f rs))"
  by (induction rs) (simp_all add: fl_sum_def)

lemma sum_list_quotients:
  "sum_list (map (\<lambda>r. f r / c) rs) = sum_list (map f rs) / (c::real)"
  by (induction rs) (simp_all add: add_divide_distrib)

lemma exp_le_sum_list: "r \<in> set rs \<Longrightarrow> exp r \<le> sum_list (map exp rs)" for r :: real
proof (induction rs)
  case Nil
  then show ?case by simp
next
  case (Cons a rs)
  have nn: "0 \<le> sum_list (map exp rs)" by (auto intro!: sum_list_nonneg)
  with Cons show ?case by (cases "r = a") (auto intro: add_increasing)
qed

lemma softmax_Fin:
  assumes "rs \<noteq> []"
  shows "softmax (map Fin rs) = map (\<lambda>r. Fin (exp r / sum_list (map exp rs))) rs"
proof -
  have pos: "0 < sum_list (map exp rs)"
    using assms by (cases rs) (auto intro!: add_pos_nonneg sum_list_nonneg)
  then show ?thesis
    by (simp add: softmax_def Let_def fl_sum_Fin comp_def)
qed

lemma softmax_finite_distribution:
  assumes "rs \<noteq> []"
  shows "fl_sum (softmax (map Fin rs)) = Fin 1"
    and "\<forall>p\<in>set (softmax (map Fin rs)). \<exists>r. p = Fin r \<and> 0 \<le> r \<and> r \<le> 1"
proof -
  let ?s = "sum_list (map exp rs)"
  have pos: "0 < ?s"
    using assms by (cases rs) (auto intro!: add_pos_nonneg sum_list_nonneg)
  have "sum_list (map (\<lambda>r. exp r / ?s) rs) = sum_list (map exp rs) / ?s"
    by (rule sum_list_quotients)
  then have "sum_list (map (\<lambda>r. exp r / ?s) rs) = 1" using pos by simp
  then show "fl_sum (softmax (map Fin rs)) = Fin 1"
    by (simp add: softmax_Fin [OF assms] fl_sum_Fin)
  have "exp r \<le> ?s" if "r \<in> set rs" for r
    using that by (rule exp_le_sum_list)
  then show "\<forall>p\<in>set (softmax (map Fin rs)). \<exists>r. p = Fin r \<and> 0 \<le> r \<and> r \<le> 1"
    using pos by (auto simp add: softmax_Fin [OF assms] divide_le_eq)
qed

subsection \<open>The sample network on equal images and on ties\<close>

lemma image_dot_aa: "t_dot (image_vec sample_clip ''a.png'') (image_vec sample_clip ''a.png'') = Fin 1"
  by (simp add: image_vec_a t_dot_def fl_sum_def)

lemma topk_low_nan_3:
  "topk sample_env (change_probs sample_clip ''a.png'' ''a.png'') 3 = Some [0, 1, 2]"
  by (simp add: sample_env_def topk_low_first_def topk_by_def change_probs_aa [symmetric]
        length_change_probs)
     (simp add: change_probs_aa rank_low_nan upt_15)

lemma topk_low_nan_15:
  "topk sample_env (change_probs sample_clip ''a.png'' ''a.png'') 15
     = Some [0, 1, 2, 3, 4, 5, 6, 7, 8, 9, 10, 11, 12, 13, 14]"
  by (simp add: sample_env_def topk_low_first_def topk_by_def change_probs_aa [symmetric]
        length_change_probs)
     (simp add: change_probs_aa rank_low_nan upt_15)

lemma topk_high_ties_2:
  "topk sample_env_high (land_probs sample_clip ''a.png'') 2 = Some [1, 0]"
  by (simp add: sample_env_high_def topk_high_first_def topk_by_def length_land_probs
        rank_high_ties)

subsection \<open>Embeddings that are not the zero vector\<close>

lemma ssq_nonneg: "0 \<le> ssq n f"
  by (auto simp add: ssq_def intro!: sum_list_nonneg)

lemma ssq_zero_iff: "ssq n f = 0 \<longleftrightarrow> (\<forall>i<n. f i = 0)"
proof -
  have "ssq n f = 0 \<longleftrightarrow> (\<forall>x\<in>set (map (\<lambda>i. f i * f i) [0..<n]). x = 0)"
    unfolding ssq_def by (rule sum_list_nonneg_eq_0_iff) auto
  then show ?thesis by auto
qed

lemma ssq_cong: "(\<And>i. i < n \<Longrightarrow> f i * f i = g i) \<Longrightarrow> ssq n f = sum_list (map g [0..<n])"
  unfolding ssq_def by (rule arg_cong [where f = sum_list]) simp

lemma ssq_unit: 
  assumes "ssq n f \<noteq> 0"
  shows "ssq n (unit_of n f) = 1"
proof -
  have pos: "0 < ssq n f" using assms ssq_nonneg [of n f] by simp
  have "unit_of n f i * unit_of n f i = f i * f i / ssq n f" for i
    using pos by (simp add: unit_of_def)
  then have "ssq n (unit_of n f) = sum_list (map (\<lambda>i. f i * f i / ssq n f) [0..<n])"
    by (simp add: ssq_def)
  also have "\<dots> = ssq n f / ssq n f"
    unfolding ssq_def by (rule sum_list_quotients)
  finally show ?thesis using assms by simp
qed

lemma t_norm_fin: "t_norm (fin_tensor n f) = Fin (sqrt (ssq n f))"
  using ssq_nonneg [of n f]
  by (simp add: t_norm_def fin_tensor_def comp_def fl_sum_Fin ssq_def)

lemma normalise_fin:
  assumes "ssq n f \<noteq> 0"
  shows "t_div (fin_tensor n f) (t_norm (fin_tensor n f)) = fin_tensor n (unit_of n f)"
  using assms by (simp add: t_norm_fin) (simp add: t_div_def fin_tensor_def unit_of_def)

lemma zip_fin:
  "zip (fin_tensor n f) (fin_tensor n g) = map (\<lambda>i. (Fin (f i), Fin (g i))) [0..<n]"
  by (simp add: fin_tensor_def zip_map_map zip_same_conv_map)

lemma t_sub_fin: "t_sub (fin_tensor n f) (fin_tensor n g) = fin_tensor n (\<lambda>i. f i - g i)"
  by (simp add: t_sub_def zip_fin) (simp add: fin_tensor_def fl_sub_def)

lemma t_add_fin: "t_add (fin_tensor n f) (fin_tensor n g) = fin_tensor n (\<lambda>i. f i + g i)"
  by (simp add: t_add_def zip_fin) (simp add: fin_tensor_def)

lemma t_scale_fin: "t_scale (fin_tensor n f) (Fin c) = fin_tensor n (\<lambda>i. f i * c)"
  by (simp add: t_scale_def fin_tensor_def)

lemma t_dot_fin:
  "t_dot (fin_tensor n f) (fin_tensor n g) = Fin (sum_list (map (\<lambda>i. f i * g i) [0..<n]))"
  by (simp add: t_dot_def zip_fin comp_def fl_sum_Fin)

lemma fin_tensor_eq_iff: "fin_tensor n f = fin_tensor n g \<longleftrightarrow> (\<forall>i<n. f i = g i)"
  by (auto simp add: fin_tensor_def)

lemma image_vec_fin:
  assumes "image_nonzero m p"
  shows "image_vec m p = fin_tensor (embed_dim m) (unit_of (embed_dim m) (net_encode_image m p))"
    and "ssq (embed_dim m) (unit_of (embed_dim m) (net_encode_image m p)) = 1"
proof -
  have nz: "ssq (embed_dim m) (net_encode_image m p) \<noteq> 0"
    using assms by (auto simp add: ssq_zero_iff image_nonzero_def)
  show "image_vec m p = fin_tensor (embed_dim m) (unit_of (embed_dim m) (net_encode_image m p))"
    using normalise_fin [OF nz] by (simp add: image_vec_def Let_def fin_tensor_def)
  show "ssq (embed_dim m) (unit_of (embed_dim m) (net_encode_image m p)) = 1"
    by (rule ssq_unit [OF nz])
qed

lemma text_vec_fin:
  assumes "text_nonzero m t"
  shows "text_vec m t = fin_tensor (embed_dim m) (unit_of (embed_dim m) (net_encode_text m t))"
proof -
  have nz: "ssq (embed_dim m) (net_encode_text m t) \<noteq> 0"
    using assms by (auto simp add: ssq_zero_iff text_nonzero_def)
  show ?thesis
    using normalise_fin [OF nz] by (simp add: text_vec_def Let_def fin_tensor_def)
qed

lemma image_vec_unit_norm: "image_nonzero m p \<Longrightarrow> t_norm (image_vec m p) = Fin 1"
  by (simp add: image_vec_fin t_norm_fin)

lemma scores_fin:
  assumes "\<forall>t\<in>set ts. text_nonzero m t"
  shows "\<exists>rs. t_scale (t_matmul_T (fin_tensor (embed_dim m) q) (map (text_vec m) ts)) (Fin 100)
           = map Fin rs \<and> length rs = length ts"
proof -
  let ?r = "\<lambda>t. sum_list (map (\<lambda>i. q i * unit_of (embed_dim m) (net_encode_text m t) i)
                [0..<embed_dim m]) * 100"
  have "t_scale (t_matmul_T (fin_tensor (embed_dim m) q) (map (text_vec m) ts)) (Fin 100)
          = map Fin (map ?r ts)"
    using assms by (simp add: t_scale_def t_matmul_T_def text_vec_fin t_dot_fin)
  then show ?thesis by (intro exI [of _ "map ?r ts"]) simp
qed

lemma land_probs_distribution:
  assumes "image_nonzero m p" and "\<forall>t\<in>set LAND_USE_CATEGORIES. text_nonzero m t"
  shows "fl_sum (land_probs m p) = Fin 1"
    and "\<forall>x\<in>set (land_probs m p). \<exists>r. x = Fin r \<and> 0 \<le> r \<and> r \<le> 1"
proof -
  from scores_fin [OF assms(2), of "unit_of (embed_dim m) (net_encode_image m p)"]
  obtain rs where rs: "t_scale (t_matmul_T (image_vec m p) (map (text_vec m) LAND_USE_CATEGORIES))
      (Fin 100) = map Fin rs" "length rs = length LAND_USE_CATEGORIES"
    unfolding image_vec_fin(1) [OF assms(1), symmetric] by blast
  then have ne: "rs \<noteq> []" by (auto simp add: length_LAND)
  show "fl_sum (land_probs m p) = Fin 1"
    using softmax_finite_distribution(1) [OF ne] by (simp add: land_probs_def rs(1))
  show "\<forall>x\<in>set (land_probs m p). \<exists>r. x = Fin r \<and> 0 \<le> r \<and> r \<le> 1"
    using softmax_finite_distribution(2) [OF ne] by (simp add: land_probs_def rs(1))
qed

lemma change_query_fin:
  assumes "ssq n u1 = 1" and "ssq n u2 = 1" and "fin_tensor n u1 \<noteq> fin_tensor n u2"
  shows "\<exists>c. change_query (fin_tensor n u1) (fin_tensor n u2) = fin_tensor n c"
proof -
  let ?d = "\<lambda>i. u2 i - u1 i"
  let ?dh = "unit_of n ?d"
  let ?c = "\<lambda>i. u2 i + ?dh i * 0.5"
  from assms(3) obtain i where "i < n" "u1 i \<noteq> u2 i"
    by (auto simp add: fin_tensor_eq_iff)
  then have dnz: "ssq n ?d \<noteq> 0" by (auto simp add: ssq_zero_iff)
  have dh1: "ssq n ?dh = 1" by (rule ssq_unit [OF dnz])
  have cnz: "ssq n ?c \<noteq> 0"
  proof
    assume "ssq n ?c = 0"
    then have z: "\<forall>i<n. u2 i + ?dh i * 0.5 = 0" by (simp only: ssq_zero_iff)
    have "u2 i * u2 i = ?dh i * ?dh i / 4" if "i < n" for i
    proof -
      from z that have "u2 i + ?dh i * 0.5 = 0" by blast
      then have "u2 i = - (?dh i / 2)" by (simp add: add_eq_0_iff)
      then show ?thesis by simp
    qed
    then have "ssq n u2 = sum_list (map (\<lambda>i. ?dh i * ?dh i / 4) [0..<n])"
      by (rule ssq_cong)
    also have "\<dots> = ssq n ?dh / 4"
      unfolding ssq_def by (rule sum_list_quotients)
    finally show False using assms(2) dh1 by simp
  qed
  have s1: "t_sub (fin_tensor n u2) (fin_tensor n u1) = fin_tensor n ?d"
    by (rule t_sub_fin)
  have s2: "t_div (fin_tensor n ?d) (t_norm (fin_tensor n ?d)) = fin_tensor n ?dh"
    by (rule normalise_fin [OF dnz])
  have s3: "t_scale (fin_tensor n ?dh) (Fin 0.5) = fin_tensor n (\<lambda>i. ?dh i * 0.5)"
    by (rule t_scale_fin)
  have s4: "t_add (fin_tensor n u2) (fin_tensor n (\<lambda>i. ?dh i * 0.5)) = fin_tensor n ?c"
    by (rule t_add_fin)
  have s5: "t_div (fin_tensor n ?c) (t_norm (fin_tensor n ?c)) = fin_tensor n (unit_of n ?c)"
    by (rule normalise_fin [OF cnz])
  have "change_query (fin_tensor n u1) (fin_tensor n u2) = fin_tensor n (unit_of n ?c)"
    by (simp only: change_query_def Let_def s1 s2 s3 s4 s5)
  then show ?thesis by blast
qed

lemma change_probs_distribution:
  assumes "image_nonzero m p1" and "image_nonzero m p2"
    and "image_vec m p1 \<noteq> image_vec m p2"
    and "\<forall>d\<in>set CHANGE_DESCRIPTIONS. text_nonzero m (''This area shows '' @ d)"
  shows "fl_sum (change_probs m p1 p2) = Fin 1"
    and "\<forall>x\<in>set (change_probs m p1 p2). \<exists>r. x = Fin r \<and> 0 \<le> r \<and> r \<le> 1"
proof -
  let ?n = "embed_dim m"
  let ?texts = "map (\<lambda>d. ''This area shows '' @ d) CHANGE_DESCRIPTIONS"
  have "fin_tensor ?n (unit_of ?n (net_encode_image m p1))
          \<noteq> fin_tensor ?n (unit_of ?n (net_encode_image m p2))"
    using assms(3) unfolding image_vec_fin(1) [OF assms(1)] image_vec_fin(1) [OF assms(2)] .
  from change_query_fin [OF image_vec_fin(2) [OF assms(1)] image_vec_fin(2) [OF assms(2)] this]
  obtain c where c: "change_query (image_vec m p1) (image_vec m p2) = fin_tensor ?n c"
    unfolding image_vec_fin(1) [OF assms(1), symmetric] image_vec_fin(1) [OF assms(2), symmetric]
    by blast
  have "\<forall>t\<in>set ?texts. text_nonzero m t" using assms(4) by simp
  from scores_fin [OF this, of c]
  obtain rs where rs: "t_scale (t_matmul_T (change_query (image_vec m p1) (image_vec m p2))
      (map (text_vec m) ?texts)) (Fin 100) = map Fin rs" "length rs = length ?texts"
    unfolding c [symmetric] by blast
  then have ne: "rs \<noteq> []" by (auto simp add: length_CHANGE)
  have p: "change_probs m p1 p2 = softmax (map Fin rs)"
    using rs(1) by (simp add: change_probs_def comp_def)
  show "fl_sum (change_probs m p1 p2) = Fin 1"
    using softmax_finite_distribution(1) [OF ne] by (simp add: p)
  show "\<forall>x\<in>set (change_probs m p1 p2). \<exists>r. x = Fin r \<and> 0 \<le> r \<and> r \<le> 1"
    using softmax_finite_distribution(2) [OF ne] by (simp add: p)
qed

lemma detect_changes_identical:
  assumes "topk_contract (topk env)" and "model (initialize env self) = Some m"
    and "image_nonzero m p1" and "image_vec m p1 = image_vec m p2"
    and "fst (detect_changes env self p1 p2 k) = Inr r"
  shows "overall_similarity r = Fin 1" and "change_magnitude r = Fin 0"
    and "\<forall>c\<in>set (detected_changes r). change_confidence c = NaN"
proof -
  have d: "0 < embed_dim m" using assms(3) by (auto simp add: image_nonzero_def)
  show "\<forall>c\<in>set (detected_changes r). change_confidence c = NaN"
    by (rule detect_changes_identical_nan [OF assms(1,2) d assms(4,5)])
  have "t_dot (image_vec m p1) (image_vec m p1) = Fin 1"
    using image_vec_fin(2) [OF assms(3)]
    by (simp add: image_vec_fin(1) [OF assms(3)] t_dot_fin ssq_def)
  then have s: "t_dot (image_vec m p1) (image_vec m p2) = Fin 1"
    using assms(4) by simp
  from assms(5) show "overall_similarity r = Fin 1"
    by (auto simp add: detect_changes_eq [OF assms(2)] s split: option.splits)
  from assms(5) show "change_magnitude r = Fin 0"
    by (auto simp add: detect_changes_eq [OF assms(2)] s fl_sub_def split: option.splits)
qed

section \<open>The properties of the specification\<close>

text \<open>
  C1. Two images with equal embeddings: the specification has \<open>detect_changes\<close> fall
  back to similarity 1.0, magnitude 0.0 and a neutral ranking without NaN. The code has no such
  branch. Run on the same image twice it divides the zero difference by its zero norm; it
  reports similarity 1 and magnitude 0, and every confidence of the ranking is NaN. That holds
  for every network (\<open>detect_changes_identical\<close>); here it is computed on the sample
  network.
\<close>

theorem detect_changes_identical_images:
  "fst (detect_changes sample_env sample_analyzer ''a.png'' ''a.png'' 3)
     = Inr \<lparr>overall_similarity = Fin 1, change_magnitude = Fin 0,
            detected_changes =
              [\<lparr>description = ''new construction and urban development'', change_confidence = NaN\<rparr>,
               \<lparr>description = ''deforestation and vegetation loss'', change_confidence = NaN\<rparr>,
               \<lparr>description = ''reforestation and vegetation growth'', change_confidence = NaN\<rparr>]\<rparr>"
  by (simp add: detect_changes_eq [OF sample_ready] topk_low_nan_3 image_dot_aa fl_sub_def)
     (simp add: change_probs_aa CHANGE_DESCRIPTIONS_def)

text \<open>
  C2. A call of the scoring path with \<open>top_k\<close> above the size of its catalog fails:
  \<open>classify_land_use\<close> with \<open>top_k\<close> above the 20 land-use categories
  and \<open>detect_changes\<close> with \<open>top_k\<close> above the 15 change descriptions
  both end in the error that \<open>topk\<close> raises for an argument out of range, and return
  no ranking.
\<close>

theorem top_k_above_catalog_fails:
  assumes "wf_analyzer self" and "topk_contract (topk env)"
  shows "(int (length LAND_USE_CATEGORIES) < k \<longrightarrow>
            fst (classify_land_use env self p k)
              = Inl (RuntimeError ''selected index k out of range''))
       \<and> (int (length CHANGE_DESCRIPTIONS) < k \<longrightarrow>
            fst (detect_changes env self p1 p2 k)
              = Inl (RuntimeError ''selected index k out of range''))"
proof -
  from initialize_ready [OF assms(1)] obtain m where m: "model (initialize env self) = Some m"
    by blast
  have a: "topk env (land_probs m p) k = None" if "20 < k"
    using that topk_contract_None [OF assms(2), of "land_probs m p" k]
    by (simp add: length_land_probs)
  have b: "topk env (change_probs m p1 p2) k = None" if "15 < k"
    using that topk_contract_None [OF assms(2), of "change_probs m p1 p2" k]
    by (simp add: length_change_probs)
  show ?thesis
    using a b by (simp add: classify_land_use_eq [OF m] detect_changes_eq [OF m] length_LAND length_CHANGE)
qed

theorem top_k_above_catalog_fails_witness:
  "wf_analyzer sample_analyzer \<and> topk_contract (topk sample_env)
   \<and> int (length LAND_USE_CATEGORIES) < 21 \<and> int (length CHANGE_DESCRIPTIONS) < 21
   \<and> fst (classify_land_use sample_env sample_analyzer ''a.png'' 21)
       = Inl (RuntimeError ''selected index k out of range'')
   \<and> fst (detect_changes sample_env sample_analyzer ''a.png'' ''b.png'' 21)
       = Inl (RuntimeError ''selected index k out of range'')"
  using top_k_above_catalog_fails [OF sample_wf sample_contract, of 21 "''a.png''" "''a.png''" "''b.png''"]
    sample_wf sample_contract
  by (simp add: length_LAND length_CHANGE)

text \<open>
  C3. For a positive \<open>top_k\<close>, the ranking that \<open>classify_land_use\<close>
  returns has exactly \<open>min top_k 20\<close> entries, in descending order of confidence
  (the order of \<open>topk\<close>, which is \<open>\<ge>\<close> on finite values by
  \<open>topk_ge_Fin\<close>); it returns one unless \<open>top_k\<close> exceeds the catalog.
\<close>

theorem classify_length_and_order:
  assumes "wf_analyzer self" and "topk_contract (topk env)" and "0 < k"
  shows "case fst (classify_land_use env self p k) of
           Inr r \<Rightarrow> length r = nat (min k (int (length LAND_USE_CATEGORIES)))
                  \<and> sorted_wrt (\<lambda>a b. topk_ge (confidence a) (confidence b)) r
         | Inl e \<Rightarrow> int (length LAND_USE_CATEGORIES) < k"
proof -
  from initialize_ready [OF assms(1)] obtain m where m: "model (initialize env self) = Some m"
    by blast
  let ?probs = "land_probs m p"
  show ?thesis
  proof (cases "topk env ?probs k")
    case None
    then have "20 < k"
      using topk_contract_None [OF assms(2), of ?probs k] assms(3)
      by (simp add: length_land_probs)
    with None show ?thesis by (simp add: classify_land_use_eq [OF m] length_LAND)
  next
    case (Some idxs)
    note c = topk_contract_Some [OF assms(2) Some]
    have "k \<le> 20" using c(2) by (simp add: length_land_probs)
    then have len: "length idxs = nat (min k 20)" using c(3) by (simp add: min_def)
    have "sorted_wrt (\<lambda>a b. topk_ge (confidence a) (confidence b))
            (map (\<lambda>idx. \<lparr>category = LAND_USE_CATEGORIES ! idx, confidence = ?probs ! idx\<rparr>) idxs)"
      using c(6) by (simp add: sorted_wrt_map)
    with Some len show ?thesis by (simp add: classify_land_use_eq [OF m] length_LAND)
  qed
qed

theorem classify_length_and_order_witness:
  "wf_analyzer sample_analyzer \<and> topk_contract (topk sample_env) \<and> (0::int) < 3
   \<and> (\<exists>r. fst (classify_land_use sample_env sample_analyzer ''a.png'' 3) = Inr r
          \<and> length r = 3
          \<and> sorted_wrt (\<lambda>a b. topk_ge (confidence a) (confidence b)) r)"
proof -
  have k: "(0::int) < 3" by simp
  from classify_sample_3 obtain r
    where r: "fst (classify_land_use sample_env sample_analyzer ''a.png'' 3) = Inr r" by blast
  from classify_length_and_order [OF sample_wf sample_contract k, of "''a.png''"] r
  have "length r = 3 \<and> sorted_wrt (\<lambda>a b. topk_ge (confidence a) (confidence b)) r"
    by (simp add: length_LAND)
  with r sample_wf sample_contract show ?thesis by simp
qed

text \<open>
  C4. With fewer than 2 images \<open>analyze_temporal_sequence\<close> raises the ValueError
  and does nothing else than make sure the network is loaded: no image is encoded, classified or
  compared.
\<close>

theorem analyze_needs_two_images:
  "length image_paths < 2 \<Longrightarrow>
     analyze_temporal_sequence env self image_paths dts
       = (Inl (ValueError ''Need at least 2 images for temporal analysis''), initialize env self)"
  by (simp add: analyze_temporal_sequence_def ensure_eq)

theorem analyze_needs_two_images_witness:
  "length [''a.png''] < 2
   \<and> analyze_temporal_sequence sample_env sample_analyzer [''a.png''] None
       = (Inl (ValueError ''Need at least 2 images for temporal analysis''),
          initialize sample_env sample_analyzer)"
  using analyze_needs_two_images [of "[''a.png'']" sample_env sample_analyzer None]
  by simp

text \<open>
  C5. For N \<ge> 2 images (and dates that are absent, empty or cover every image),
  \<open>analyze_temporal_sequence\<close> returns N individual classifications, entry
  \<open>i\<close> holding index \<open>i\<close> and the top-2 classification of image
  \<open>i\<close>; N - 1 pairwise changes, entry \<open>i\<close> holding the change analysis
  of images \<open>i\<close> and \<open>i + 1\<close>; and one overall trend, taken from the
  change analysis of the first and the last image and from the top-1 categories of the two.
\<close>

theorem analyze_result_shape:
  assumes "wf_analyzer self" and "topk_contract (topk env)"
    and "2 \<le> length image_paths" and "dates_ok dts (length image_paths)"
  shows "\<exists>r t overall_change first_class rest1 last_class rest2.
           fst (analyze_temporal_sequence env self image_paths dts) = Inr r
         \<and> length (individual_classifications r) = length image_paths
         \<and> (\<forall>i<length image_paths.
               index (individual_classifications r ! i) = i
             \<and> fst (classify_land_use env self (image_paths ! i) 2)
                 = Inr (classification (individual_classifications r ! i)))
         \<and> length (pairwise_changes r) = length image_paths - 1
         \<and> (\<forall>i<length image_paths - 1.
               from_index (pairwise_changes r ! i) = i
             \<and> to_index (pairwise_changes r ! i) = i + 1
             \<and> fst (detect_changes env self (image_paths ! i) (image_paths ! (i + 1)) 3)
                 = Inr (analysis (pairwise_changes r ! i)))
         \<and> overall_trend r = Some t
         \<and> fst (detect_changes env self (hd image_paths) (last image_paths) 3)
             = Inr overall_change
         \<and> total_change_magnitude t = change_magnitude overall_change
         \<and> primary_changes t = detected_changes overall_change
         \<and> fst (classify_land_use env self (hd image_paths) 2) = Inr (first_class # rest1)
         \<and> fst (classify_land_use env self (last image_paths) 2) = Inr (last_class # rest2)
         \<and> land_use_transition t =
             \<lparr>from_category = category first_class, to_category = category last_class,
              same_category = (category first_class = category last_class)\<rparr>"
proof -
  let ?s = "initialize env self"
  let ?n = "length image_paths"
  from initialize_ready [OF assms(1)] obtain m
    where m: "model ?s = Some m" and i: "initialized ?s" by blast
  from classify_each_ok [OF m i assms(2,4), of 0 image_paths] obtain ics
    where c_run: "classify_each env ?s dts 0 image_paths = (Inr ics, ?s)"
      and c_len: "length ics = ?n"
      and c_each: "\<forall>j<?n. index (ics ! j) = j
                 \<and> (\<exists>c1 c2. classification (ics ! j) = [c1, c2])
                 \<and> fst (classify_land_use env ?s (image_paths ! j) 2) = Inr (classification (ics ! j))"
    by auto
  have "\<forall>i\<in>set [0..<?n - 1]. Suc i < ?n" by auto
  from pairwise_each_ok [OF m i assms(2,4) this, of image_paths] obtain pcs
    where p_run: "pairwise_each env ?s image_paths dts [0..<?n - 1] = (Inr pcs, ?s)"
      and p_len: "length pcs = ?n - 1"
      and p_each: "\<forall>j<?n - 1. from_index (pcs ! j) = j
                 \<and> to_index (pcs ! j) = j + 1
                 \<and> fst (detect_changes env ?s (image_paths ! j) (image_paths ! (j + 1)) 3)
                     = Inr (analysis (pcs ! j))"
    by auto
  from detect_three [OF m i assms(2), of "image_paths ! 0" "last image_paths"] obtain oc
    where o_run: "detect_changes env ?s (image_paths ! 0) (last image_paths) 3 = (Inr oc, ?s)"
    by blast
  have ne: "image_paths \<noteq> []" "ics \<noteq> []" using assms(3) c_len by auto
  have hd0: "image_paths ! 0 = hd image_paths" using ne by (simp add: hd_conv_nth)
  have pos: "0 < ?n" "?n - 1 < ?n" using assms(3) by auto
  from c_each pos(1) obtain f1 f2
    where first: "classification (ics ! 0) = [f1, f2]" by blast
  from c_each pos(1)
  have first_c: "fst (classify_land_use env ?s (image_paths ! 0) 2) = Inr (classification (ics ! 0))"
    by blast
  have lastn: "last ics = ics ! (?n - 1)" "last image_paths = image_paths ! (?n - 1)"
    using ne c_len by (simp_all add: last_conv_nth)
  from c_each pos(2) obtain l1 l2
    where lst: "classification (ics ! (?n - 1)) = [l1, l2]" by blast
  from c_each pos(2)
  have lst_c: "fst (classify_land_use env ?s (image_paths ! (?n - 1)) 2)
                    = Inr (classification (ics ! (?n - 1)))"
    by blast
  have hd_ics: "ics ! 0 = hd ics" using ne by (simp add: hd_conv_nth)
  let ?t = "\<lparr>total_change_magnitude = change_magnitude oc,
             primary_changes = detected_changes oc,
             land_use_transition =
               \<lparr>from_category = category f1, to_category = category l1,
                same_category = (category f1 = category l1)\<rparr>\<rparr>"
  let ?r = "\<lparr>num_images = ?n, dates = dts, individual_classifications = ics,
             pairwise_changes = pcs, overall_trend = Some ?t\<rparr>"
  have tail: "(case ics of
          [] \<Rightarrow> (Inl (IndexError ''list index out of range''), ?s)
        | first_entry # _ \<Rightarrow>
        (case classification first_entry of
          [] \<Rightarrow> (Inl (IndexError ''list index out of range''), ?s)
        | first_class # _ \<Rightarrow>
        (case classification (last ics) of
          [] \<Rightarrow> (Inl (IndexError ''list index out of range''), ?s)
        | last_class # _ \<Rightarrow>
            (Inr \<lparr>num_images = ?n, dates = dts,
                  individual_classifications = ics, pairwise_changes = pcs,
                  overall_trend = Some
                    \<lparr>total_change_magnitude = change_magnitude oc,
                     primary_changes = detected_changes oc,
                     land_use_transition =
                       \<lparr>from_category = category first_class,
                        to_category = category last_class,
                        same_category = (category first_class = category last_class)\<rparr>\<rparr>\<rparr>,
             ?s)))) = (Inr ?r, ?s)"
    using first [unfolded hd_ics] lst [folded lastn(1)] ne(2)
    by (cases ics) simp_all
  have lt: "(?n < 2) = False" "(2 \<le> ?n) = True" using assms(3) by simp_all
  have run: "analyze_temporal_sequence env self image_paths dts = (Inr ?r, ?s)"
    unfolding analyze_temporal_sequence_def ensure_eq Let_def
    by (simp only: lt if_False if_True c_run p_run o_run tail prod.case sum.case)
  have r1: "fst (analyze_temporal_sequence env self image_paths dts) = Inr ?r"
    using run by simp
  have r2: "\<forall>i<?n. index (individual_classifications ?r ! i) = i
             \<and> fst (classify_land_use env self (image_paths ! i) 2)
                 = Inr (classification (individual_classifications ?r ! i))"
    using c_each by (simp add: classify_land_use_initialized)
  have r3: "\<forall>i<?n - 1. from_index (pairwise_changes ?r ! i) = i
             \<and> to_index (pairwise_changes ?r ! i) = i + 1
             \<and> fst (detect_changes env self (image_paths ! i) (image_paths ! (i + 1)) 3)
                 = Inr (analysis (pairwise_changes ?r ! i))"
    using p_each by (simp add: detect_changes_initialized)
  have r4: "fst (detect_changes env self (hd image_paths) (last image_paths) 3) = Inr oc"
    using o_run by (simp add: detect_changes_initialized hd0)
  have r5: "fst (classify_land_use env self (hd image_paths) 2) = Inr (f1 # [f2])"
    using first_c first by (simp add: classify_land_use_initialized hd0)
  have r6: "fst (classify_land_use env self (last image_paths) 2) = Inr (l1 # [l2])"
    using lst_c lst by (simp add: classify_land_use_initialized lastn(2))
  have r7: "length (individual_classifications ?r) = ?n" "length (pairwise_changes ?r) = ?n - 1"
    "overall_trend ?r = Some ?t" "total_change_magnitude ?t = change_magnitude oc"
    "primary_changes ?t = detected_changes oc"
    "land_use_transition ?t = \<lparr>from_category = category f1, to_category = category l1,
              same_category = (category f1 = category l1)\<rparr>"
    using c_len p_len by simp_all
  show ?thesis
    by (intro exI conjI) (rule r1 r2 r3 r4 r5 r6 r7)+
qed

theorem analyze_result_shape_witness:
  "wf_analyzer sample_analyzer \<and> topk_contract (topk sample_env)
   \<and> 2 \<le> length [''a.png'', ''b.png''] \<and> dates_ok None (length [''a.png'', ''b.png''])
   \<and> (\<exists>r t. fst (analyze_temporal_sequence sample_env sample_analyzer [''a.png'', ''b.png''] None)
                = Inr r
          \<and> length (individual_classifications r) = 2
          \<and> length (pairwise_changes r) = 1
          \<and> overall_trend r = Some t)"
proof -
  have n: "2 \<le> length [''a.png'', ''b.png'']" by simp
  have d: "dates_ok None (length [''a.png'', ''b.png''])" by (simp add: dates_ok_def)
  from analyze_result_shape [OF sample_wf sample_contract n d]
  obtain r t where
    "fst (analyze_temporal_sequence sample_env sample_analyzer [''a.png'', ''b.png''] None) = Inr r"
    "length (individual_classifications r) = length [''a.png'', ''b.png'']"
    "length (pairwise_changes r) = length [''a.png'', ''b.png''] - 1"
    "overall_trend r = Some t"
    by blast
  with sample_wf sample_contract n d show ?thesis by auto
qed

text \<open>
  C6. \<open>detect_changes\<close> reports as \<open>overall_similarity\<close> the dot product
  of the two normalised image embeddings themselves (of norm 1 by
  \<open>image_vec_unit_norm\<close>), not of the change-contextualised vector, and as
  \<open>change_magnitude\<close> one minus that value.
\<close>

theorem detect_changes_similarity:
  assumes "wf_analyzer self" and "topk_contract (topk env)"
    and "0 \<le> k" and "k \<le> int (length CHANGE_DESCRIPTIONS)"
  shows "\<exists>v_a v_b r.
           encode_image (initialize env self) p1 = Inr v_a
         \<and> encode_image (initialize env self) p2 = Inr v_b
         \<and> fst (detect_changes env self p1 p2 k) = Inr r
         \<and> overall_similarity r = t_dot v_a v_b
         \<and> change_magnitude r = fl_sub (Fin 1) (overall_similarity r)"
proof -
  from initialize_ready [OF assms(1)] obtain m where m: "model (initialize env self) = Some m"
    by blast
  from topk_contract_returns [OF assms(2,3), of "change_probs m p1 p2"] assms(4)
  obtain idxs where "topk env (change_probs m p1 p2) k = Some idxs"
    by (auto simp add: length_change_probs length_CHANGE)
  then show ?thesis
    by (simp add: detect_changes_eq [OF m] encode_image_eq [OF m])
qed

theorem detect_changes_similarity_witness:
  "wf_analyzer sample_analyzer \<and> topk_contract (topk sample_env)
   \<and> (0::int) \<le> 3 \<and> 3 \<le> int (length CHANGE_DESCRIPTIONS)
   \<and> (\<exists>r. fst (detect_changes sample_env sample_analyzer ''a.png'' ''b.png'' 3) = Inr r
          \<and> overall_similarity r = Fin 0 \<and> change_magnitude r = Fin 1)"
proof -
  have k: "(0::int) \<le> 3" "3 \<le> int (length CHANGE_DESCRIPTIONS)"
    by (simp_all add: length_CHANGE)
  from detect_changes_similarity [OF sample_wf sample_contract k, of "''a.png''" "''b.png''"]
  obtain v_a v_b r where
    a: "encode_image (initialize sample_env sample_analyzer) ''a.png'' = Inr v_a" and
    b: "encode_image (initialize sample_env sample_analyzer) ''b.png'' = Inr v_b" and
    r: "fst (detect_changes sample_env sample_analyzer ''a.png'' ''b.png'' 3) = Inr r"
       "overall_similarity r = t_dot v_a v_b"
       "change_magnitude r = fl_sub (Fin 1) (overall_similarity r)"
    by blast
  from a b have "v_a = [Fin 1, Fin 0]" "v_b = [Fin 0, Fin 1]"
    by (simp_all add: encode_image_eq [OF sample_ready] image_vec_a image_vec_b)
  with r have "overall_similarity r = Fin 0 \<and> change_magnitude r = Fin 1"
    by (simp add: t_dot_def fl_sum_def fl_sub_def)
  with r(1) k sample_wf sample_contract show ?thesis by blast
qed

text \<open>
  C7. Both scoring paths take the dot product of the query with every candidate, multiply by
  100, apply softmax over all candidates and return the \<open>top_k\<close> positions that
  \<open>topk\<close> selects: distinct, in descending order of confidence, none below a value
  left out. The query is the image embedding in \<open>classify_land_use\<close> and the
  change-contextualised vector in \<open>detect_changes\<close>. The order among equal
  confidences is whatever \<open>topk\<close> returns, the code adds no rule of its own: on the
  sample network, where the first two categories tie, a selection that keeps the promise of
  torch and ranks the higher position first returns position 1 before position 0, so ties are
  not broken by lower index.
\<close>

theorem scoring_path:
  assumes "wf_analyzer self" and "topk_contract (topk env)"
    and "0 \<le> k1" and "k1 \<le> int (length LAND_USE_CATEGORIES)"
    and "0 \<le> k2" and "k2 \<le> int (length CHANGE_DESCRIPTIONS)"
  shows "(\<exists>query candidates idxs.
            encode_image (initialize env self) p = Inr query
          \<and> encode_texts (initialize env self) LAND_USE_CATEGORIES = Inr candidates
          \<and> selects_top (softmax (t_scale (map (t_dot query) candidates) (Fin 100))) (nat k1) idxs
          \<and> fst (classify_land_use env self p k1)
              = Inr (map (\<lambda>i. \<lparr>category = LAND_USE_CATEGORIES ! i,
                     confidence = softmax (t_scale (map (t_dot query) candidates) (Fin 100)) ! i\<rparr>)
                   idxs))
       \<and> (\<exists>v1 v2 candidates idxs r.
            encode_image (initialize env self) p1 = Inr v1
          \<and> encode_image (initialize env self) p2 = Inr v2
          \<and> encode_texts (initialize env self)
                (map (\<lambda>d. ''This area shows '' @ d) CHANGE_DESCRIPTIONS) = Inr candidates
          \<and> selects_top
                (softmax (t_scale (map (t_dot (change_query v1 v2)) candidates) (Fin 100)))
                (nat k2) idxs
          \<and> fst (detect_changes env self p1 p2 k2) = Inr r
          \<and> detected_changes r
              = map (\<lambda>i. \<lparr>description = CHANGE_DESCRIPTIONS ! i,
                     change_confidence =
                       softmax (t_scale (map (t_dot (change_query v1 v2)) candidates) (Fin 100)) ! i\<rparr>)
                  idxs)"
proof -
  from initialize_ready [OF assms(1)] obtain m where m: "model (initialize env self) = Some m"
    by blast
  from topk_contract_returns [OF assms(2,3), of "land_probs m p"] assms(4)
  obtain i1 where i1: "topk env (land_probs m p) k1 = Some i1"
    by (auto simp add: length_land_probs length_LAND)
  from topk_contract_returns [OF assms(2,5), of "change_probs m p1 p2"] assms(6)
  obtain i2 where i2: "topk env (change_probs m p1 p2) k2 = Some i2"
    by (auto simp add: length_change_probs length_CHANGE)
  have s1: "selects_top (land_probs m p) (nat k1) i1"
    by (rule topk_contract_selects [OF assms(2) i1])
  have s2: "selects_top (change_probs m p1 p2) (nat k2) i2"
    by (rule topk_contract_selects [OF assms(2) i2])
  have a: "\<exists>query candidates idxs.
            encode_image (initialize env self) p = Inr query
          \<and> encode_texts (initialize env self) LAND_USE_CATEGORIES = Inr candidates
          \<and> selects_top (softmax (t_scale (map (t_dot query) candidates) (Fin 100))) (nat k1) idxs
          \<and> fst (classify_land_use env self p k1)
              = Inr (map (\<lambda>i. \<lparr>category = LAND_USE_CATEGORIES ! i,
                     confidence = softmax (t_scale (map (t_dot query) candidates) (Fin 100)) ! i\<rparr>)
                   idxs)"
    apply (rule exI [of _ "image_vec m p"])
    apply (rule exI [of _ "map (text_vec m) LAND_USE_CATEGORIES"])
    apply (rule exI [of _ i1])
    using s1 i1
    by (simp add: encode_image_eq [OF m] encode_texts_eq [OF m] classify_land_use_eq [OF m]
          land_probs_def t_matmul_T_def)
  have b: "\<exists>v1 v2 candidates idxs r.
            encode_image (initialize env self) p1 = Inr v1
          \<and> encode_image (initialize env self) p2 = Inr v2
          \<and> encode_texts (initialize env self)
                (map (\<lambda>d. ''This area shows '' @ d) CHANGE_DESCRIPTIONS) = Inr candidates
          \<and> selects_top
                (softmax (t_scale (map (t_dot (change_query v1 v2)) candidates) (Fin 100)))
                (nat k2) idxs
          \<and> fst (detect_changes env self p1 p2 k2) = Inr r
          \<and> detected_changes r
              = map (\<lambda>i. \<lparr>description = CHANGE_DESCRIPTIONS ! i,
                     change_confidence =
                       softmax (t_scale (map (t_dot (change_query v1 v2)) candidates) (Fin 100)) ! i\<rparr>)
                  idxs"
    apply (rule exI [of _ "image_vec m p1"])
    apply (rule exI [of _ "image_vec m p2"])
    apply (rule exI [of _ "map (\<lambda>d. text_vec m (''This area shows '' @ d)) CHANGE_DESCRIPTIONS"])
    apply (rule exI [of _ i2])
    using s2 i2
    by (simp add: encode_image_eq [OF m] encode_texts_eq [OF m] detect_changes_eq [OF m]
          change_probs_def t_matmul_T_def comp_def)
  from a b show ?thesis by (rule conjI)
qed

theorem scoring_path_witness:
  "wf_analyzer sample_analyzer \<and> topk_contract (topk sample_env)
   \<and> (0::int) \<le> 2 \<and> 2 \<le> int (length LAND_USE_CATEGORIES)
   \<and> (0::int) \<le> 3 \<and> 3 \<le> int (length CHANGE_DESCRIPTIONS)
   \<and> (\<exists>query candidates idxs.
          encode_image (initialize sample_env sample_analyzer) ''a.png'' = Inr query
        \<and> encode_texts (initialize sample_env sample_analyzer) LAND_USE_CATEGORIES = Inr candidates
        \<and> selects_top (softmax (t_scale (map (t_dot query) candidates) (Fin 100))) 2 idxs
        \<and> fst (classify_land_use sample_env sample_analyzer ''a.png'' 2)
            = Inr (map (\<lambda>i. \<lparr>category = LAND_USE_CATEGORIES ! i,
                     confidence = softmax (t_scale (map (t_dot query) candidates) (Fin 100)) ! i\<rparr>)
                 idxs))
   \<and> (\<exists>v1 v2 candidates idxs r.
          encode_image (initialize sample_env sample_analyzer) ''a.png'' = Inr v1
        \<and> encode_image (initialize sample_env sample_analyzer) ''b.png'' = Inr v2
        \<and> encode_texts (initialize sample_env sample_analyzer)
              (map (\<lambda>d. ''This area shows '' @ d) CHANGE_DESCRIPTIONS) = Inr candidates
        \<and> selects_top
              (softmax (t_scale (map (t_dot (change_query v1 v2)) candidates) (Fin 100))) 3 idxs
        \<and> fst (detect_changes sample_env sample_analyzer ''a.png'' ''b.png'' 3) = Inr r
        \<and> detected_changes r
            = map (\<lambda>i. \<lparr>description = CHANGE_DESCRIPTIONS ! i,
                   change_confidence =
                     softmax (t_scale (map (t_dot (change_query v1 v2)) candidates) (Fin 100)) ! i\<rparr>)
                idxs)"
proof -
  have k: "(0::int) \<le> 2" "2 \<le> int (length LAND_USE_CATEGORIES)"
    "(0::int) \<le> 3" "3 \<le> int (length CHANGE_DESCRIPTIONS)"
    by (simp_all add: length_LAND length_CHANGE)
  note s = scoring_path [OF sample_wf sample_contract k, of "''a.png''" "''a.png''" "''b.png''"]
  have n: "nat 2 = 2" "nat 3 = 3" by simp_all
  show ?thesis
    using sample_wf sample_contract k s [unfolded n] by (intro conjI) blast+
qed

theorem tie_order_counterexample:
  "topk_contract (topk sample_env_high) \<and> wf_analyzer sample_analyzer
   \<and> fst (classify_land_use sample_env_high sample_analyzer ''a.png'' 2)
       = Inr [\<lparr>category = LAND_USE_CATEGORIES ! 1, confidence = Fin sample_hi\<rparr>,
              \<lparr>category = LAND_USE_CATEGORIES ! 0, confidence = Fin sample_hi\<rparr>]"
  by (simp add: sample_high_contract sample_wf classify_land_use_eq [OF sample_high_ready]
        topk_high_ties_2)
     (simp add: land_probs_a)

text \<open>
  C8. The specification has every confidence distribution add up to 1 with all values in [0, 1],
  also on degenerate input. Away from the degenerate input that is so
  (\<open>land_probs_distribution\<close>, \<open>change_probs_distribution\<close>). Run on the
  same image twice with \<open>top_k\<close> 15, \<open>detect_changes\<close> returns the whole
  distribution over the change descriptions: fifteen NaNs, whose sum is NaN.
\<close>

theorem confidences_identical_images:
  "(case fst (detect_changes sample_env sample_analyzer ''a.png'' ''a.png'' 15) of
      Inr r \<Rightarrow> map change_confidence (detected_changes r)
                 = [NaN, NaN, NaN, NaN, NaN, NaN, NaN, NaN, NaN, NaN, NaN, NaN, NaN, NaN, NaN]
              \<and> fl_sum (map change_confidence (detected_changes r)) = NaN
    | Inl e \<Rightarrow> False)"
  by (simp add: detect_changes_eq [OF sample_ready] topk_low_nan_15)
     (simp add: change_probs_aa fl_sum_def)

text \<open>
  C9. \<open>compare_images\<close> reports \<open>change_detected\<close> exactly when the dot
  product of the two image embeddings is below 0.85 or the top-1 land-use categories of the two
  images differ.
\<close>

theorem compare_images_change_detected:
  assumes "wf_analyzer self" and "topk_contract (topk env)"
  shows "\<exists>v1 v2 class1 class2 r.
           encode_image (initialize env self) p1 = Inr v1
         \<and> encode_image (initialize env self) p2 = Inr v2
         \<and> fst (classify_land_use env self p1 1) = Inr [class1]
         \<and> fst (classify_land_use env self p2 1) = Inr [class2]
         \<and> fst (compare_images env self p1 p2) = Inr r
         \<and> similarity r = t_dot v1 v2
         \<and> change_detected r
             = (fl_lt (t_dot v1 v2) (Fin 0.85) \<or> category class1 \<noteq> category class2)"
proof -
  from initialize_ready [OF assms(1)] obtain m
    where m: "model (initialize env self) = Some m" and i: "initialized (initialize env self)"
    by blast
  have m': "model (initialize env (initialize env self)) = Some m"
    using m i by (simp add: initialize_idem)
  from classify_top1 [OF m assms(2), of p1] obtain i1
    where i1: "topk env (land_probs m p1) 1 = Some [i1]" by blast
  from classify_top1 [OF m assms(2), of p2] obtain i2
    where i2: "topk env (land_probs m p2) 1 = Some [i2]" by blast
  show ?thesis
    unfolding compare_images_def ensure_eq
    by (simp add: encode_image_eq [OF m] classify_land_use_eq [OF m] classify_land_use_eq [OF m']
          i1 i2 initialize_idem [OF i] Let_def)
qed

theorem compare_images_change_detected_witness:
  "wf_analyzer sample_analyzer \<and> topk_contract (topk sample_env)
   \<and> (\<exists>r. fst (compare_images sample_env sample_analyzer ''a.png'' ''b.png'') = Inr r
          \<and> similarity r = Fin 0 \<and> change_detected r)"
proof -
  have a: "encode_image (initialize sample_env sample_analyzer) ''a.png'' = Inr [Fin 1, Fin 0]"
    by (simp add: encode_image_eq [OF sample_ready] image_vec_a)
  have b: "encode_image (initialize sample_env sample_analyzer) ''b.png'' = Inr [Fin 0, Fin 1]"
    by (simp add: encode_image_eq [OF sample_ready] image_vec_b)
  have d: "t_dot [Fin 1, Fin 0] [Fin 0, Fin 1] = Fin 0"
    by (simp add: t_dot_def fl_sum_def)
  from compare_images_change_detected [OF sample_wf sample_contract, of "''a.png''" "''b.png''"]
  have "\<exists>r. fst (compare_images sample_env sample_analyzer ''a.png'' ''b.png'') = Inr r
          \<and> similarity r = Fin 0 \<and> change_detected r"
    unfolding a b by (auto simp add: d)
  with sample_wf sample_contract show ?thesis by simp
qed

text \<open>
  C10. After any call of \<open>get_analyzer\<close>, which stored the instance
  \<open>a0\<close> it returned, a later call returns that same instance and changes nothing
  when the requested name is the \<open>model_name\<close> of the stored instance; otherwise it
  creates a new analyzer, not initialised, at a fresh address, and stores it in place of the old
  one.
\<close>

theorem get_analyzer_singleton:
  assumes "wf_pstate st0" and "get_analyzer env name0 st0 = (a0, st1)"
    and "analyzer_instance st = analyzer_instance st1"
    and "length (heap st1) \<le> length (heap st)"
    and "get_analyzer env name st = (a, st')"
  shows "(model_name (heap st ! a0) = name \<longrightarrow> a = a0 \<and> st' = st)
       \<and> (model_name (heap st ! a0) \<noteq> name \<longrightarrow>
            a \<noteq> a0 \<and> a = length (heap st)
          \<and> heap st' = heap st @ [RemoteCLIPAnalyzer_init env name None]
          \<and> analyzer_instance st' = Some a
          \<and> model_name (heap st' ! a) = name
          \<and> model (heap st' ! a) = None
          \<and> \<not> initialized (heap st' ! a))"
proof -
  have prev: "analyzer_instance st1 = Some a0 \<and> a0 < length (heap st1)"
    using assms(1,2)
    by (auto simp add: get_analyzer_def wf_pstate_def Let_def split: option.splits if_splits)
  then have cur: "analyzer_instance st = Some a0" "a0 < length (heap st)"
    using assms(3,4) by auto
  show ?thesis
    using assms(5) cur
    by (auto simp add: get_analyzer_def Let_def RemoteCLIPAnalyzer_init_def)
qed

theorem get_analyzer_singleton_witness:
  "wf_pstate empty_pstate
   \<and> get_analyzer sample_env ''ViT-B-32'' empty_pstate = (0, one_pstate)
   \<and> model_name (heap one_pstate ! 0) = ''ViT-B-32''
   \<and> get_analyzer sample_env ''ViT-B-32'' one_pstate = (0, one_pstate)
   \<and> model_name (heap one_pstate ! 0) \<noteq> ''RN50''
   \<and> get_analyzer sample_env ''RN50'' one_pstate = (1, two_pstate)
   \<and> (1::nat) \<noteq> 0 \<and> 1 = length (heap one_pstate)
   \<and> heap two_pstate = heap one_pstate @ [RemoteCLIPAnalyzer_init sample_env ''RN50'' None]
   \<and> analyzer_instance two_pstate = Some 1
   \<and> model_name (heap two_pstate ! 1) = ''RN50''
   \<and> model (heap two_pstate ! 1) = None
   \<and> \<not> initialized (heap two_pstate ! 1)"
proof -
  have w: "wf_pstate empty_pstate" by (simp add: wf_pstate_def empty_pstate_def)
  have c0: "get_analyzer sample_env ''ViT-B-32'' empty_pstate = (0, one_pstate)"
    by (simp add: get_analyzer_def empty_pstate_def one_pstate_def)
  have n: "model_name (heap one_pstate ! 0) = ''ViT-B-32''"
    by (simp add: one_pstate_def RemoteCLIPAnalyzer_init_def)
  have c1: "get_analyzer sample_env ''ViT-B-32'' one_pstate = (0, one_pstate)"
    by (simp add: get_analyzer_def one_pstate_def RemoteCLIPAnalyzer_init_def)
  have c2: "get_analyzer sample_env ''RN50'' one_pstate = (1, two_pstate)"
    by (simp add: get_analyzer_def one_pstate_def two_pstate_def RemoteCLIPAnalyzer_init_def)
  show ?thesis
    using get_analyzer_singleton [OF w c0 refl order_refl c1]
      get_analyzer_singleton [OF w c0 refl order_refl c2] w c0 c1 c2 n
    by (simp add: one_pstate_def two_pstate_def RemoteCLIPAnalyzer_init_def)
qed

end
